theory Spec2Isabelle
  imports Complex_Main
begin

section \<open>Python strings\<close>

text \<open>
  A Python \<open>str\<close> is a sequence of Unicode code points.  The agent reads and writes
  characters outside Latin-1 (the rupee sign U+20B9, the en dash U+2013, the
  non-breaking hyphen U+2011), so a string is modelled as the list of its code points and
  \<open>len\<close> is \<open>length\<close>.  ASCII literals of the source are written with \<open>ascii\<close>.
\<close>

type_synonym str = "nat list"

definition ascii :: "string \<Rightarrow> str" where
  "ascii s = map of_char s"

definition rupee :: nat where
  "rupee = 8377"

definition en_dash :: nat where
  "en_dash = 8211"

definition nb_hyphen :: nat where
  "nb_hyphen = 8209"

text \<open>
  \<open>not x\<close> on an \<open>Optional[str]\<close> or an optional list: true for \<open>None\<close> and for
  the empty sequence.
\<close>

definition falsy :: "'a list option \<Rightarrow> bool" where
  "falsy x = (case x of None \<Rightarrow> True | Some s \<Rightarrow> s = [])"

text \<open>\<open>a or b\<close> on optional sequences: \<open>a\<close> when it is truthy, else \<open>b\<close>.\<close>

definition py_or :: "'a list option \<Rightarrow> 'a list option \<Rightarrow> 'a list option" where
  "py_or a b = (if falsy a then b else a)"

text \<open>
  \<open>str.lower()\<close>.  The agent only ever compares a lowered input with ASCII constants
  (by \<open>==\<close> or \<open>in\<close>), so what matters is where the result holds ASCII characters.
  In the Unicode database exactly these characters lower to something that contains
  ASCII: \<open>A\<close>..\<open>Z\<close>, U+0130 (to \<open>i\<close> followed by U+0307) and the Kelvin sign U+212A
  (to \<open>k\<close>).  Every other character lowers to non-ASCII characters only; the model keeps
  it unchanged, which leaves every comparison with an ASCII constant as Python decides it.
\<close>

definition lower_char :: "nat \<Rightarrow> str" where
  "lower_char c =
     (if 65 \<le> c \<and> c \<le> 90 then [c + 32]
      else if c = 304 then [105, 775]
      else if c = 8490 then [107]
      else [c])"

definition lower :: "str \<Rightarrow> str" where
  "lower s = concat (map lower_char s)"

text \<open>\<open>kw in s\<close> on strings: \<open>kw\<close> occurs in \<open>s\<close> as a contiguous run.\<close>

primrec starts_with :: "str \<Rightarrow> str \<Rightarrow> bool" where
  "starts_with s [] = True"
| "starts_with s (k # ks) = (case s of [] \<Rightarrow> False | c # cs \<Rightarrow> c = k \<and> starts_with cs ks)"

primrec contains :: "str \<Rightarrow> str \<Rightarrow> bool" where
  "contains [] kw = (kw = [])"
| "contains (c # cs) kw = (starts_with (c # cs) kw \<or> contains cs kw)"

section \<open>Location feasibility\<close>

text \<open>
  \<open>_compute_location_feasibility(location, mode)\<close>: the location guard comes first,
  then the mode test, then the two keyword scans over the lowered location.
\<close>

definition compute_location_feasibility :: "str option \<Rightarrow> str option \<Rightarrow> int" where
  "compute_location_feasibility location mode =
     (case location of
        None \<Rightarrow> 50
      | Some loc \<Rightarrow>
          if loc = [] then 50
          else if \<not> falsy mode \<and> map_option lower mode = Some (ascii ''online'') then 100
          else
            (let loc_lower = lower loc in
             if list_ex (\<lambda>term. contains loc_lower term)
                  [ascii ''sector'', ascii ''society'', ascii ''block''] then 80
             else if list_ex (\<lambda>term. contains loc_lower term)
                  [ascii ''city'', ascii ''town'', ascii ''district''] then 60
             else 50))"

section \<open>Character classes of the regular expressions\<close>

text \<open>
  \<open>\d\<close> in a \<open>str\<close> pattern matches every Unicode decimal digit (category Nd), and
  \<open>int()\<close> reads each of them by its decimal value.  The Nd characters come in runs of ten
  consecutive code points, digit zero first; \<open>decimal_zeros\<close> lists the zero of every run
  (Unicode 14, the database of CPython 3.11).
\<close>

definition decimal_zeros :: "nat list" where
  "decimal_zeros =
     [48, 1632, 1776, 1984, 2406, 2534, 2662, 2790, 2918, 3046, 3174, 3302, 3430, 3558,
      3664, 3792, 3872, 4160, 4240, 6112, 6160, 6470, 6608, 6784, 6800, 6992, 7088, 7232,
      7248, 42528, 43216, 43264, 43472, 43504, 43600, 44016, 65296, 66720, 68912, 69734,
      69872, 69942, 70096, 70384, 70736, 70864, 71248, 71360, 71472, 71904, 72016, 72784,
      73040, 73120, 92768, 92864, 93008, 120782, 120792, 120802, 120812, 120822, 123200,
      123632, 125264, 130032]"

definition decimal_value :: "nat \<Rightarrow> nat option" where
  "decimal_value c = map_option (\<lambda>z. c - z) (find (\<lambda>z. z \<le> c \<and> c \<le> z + 9) decimal_zeros)"

definition is_decimal :: "nat \<Rightarrow> bool" where
  "is_decimal c = (decimal_value c \<noteq> None)"

text \<open>\<open>\s\<close> in a \<open>str\<close> pattern: the characters for which \<open>str.isspace\<close> holds.\<close>

definition is_space :: "nat \<Rightarrow> bool" where
  "is_space c =
     (9 \<le> c \<and> c \<le> 13 \<or> 28 \<le> c \<and> c \<le> 32 \<or> c = 133 \<or> c = 160 \<or> c = 5760 \<or>
      8192 \<le> c \<and> c \<le> 8202 \<or> c = 8232 \<or> c = 8233 \<or> c = 8239 \<or> c = 8287 \<or> c = 12288)"

text \<open>
  A literal letter under \<open>re.IGNORECASE\<close>: the text character matches when its simple
  lowercase is the pattern letter.  For the letters of \<open>day\<close> and \<open>hour\<close> these are
  the letter and its capital; \<open>s\<close> is also matched by the long s U+017F.
\<close>

definition ci_char :: "nat \<Rightarrow> nat \<Rightarrow> bool" where
  "ci_char p c = (c = p \<or> (65 \<le> c \<and> c \<le> 90 \<and> c + 32 = p) \<or> (p = 115 \<and> c = 383))"

primrec ci_starts_with :: "str \<Rightarrow> str \<Rightarrow> bool" where
  "ci_starts_with s [] = True"
| "ci_starts_with s (p # ps) =
     (case s of [] \<Rightarrow> False | c # cs \<Rightarrow> ci_char p c \<and> ci_starts_with cs ps)"

section \<open>Integers and their decimal text\<close>

datatype error = ValueError

text \<open>
  CPython limits the conversion between \<open>str\<close> and \<open>int\<close>: beyond
  \<open>sys.get_int_max_str_digits()\<close> digits, 4300 unless the program changes it (the agent
  never does), both \<open>int(s)\<close> and the formatting of an integer raise \<open>ValueError\<close>.
  Leading zeros count as digits of \<open>s\<close>.
\<close>

definition max_str_digits :: nat where
  "max_str_digits = 4300"

text \<open>
  \<open>int(s)\<close> on a string of decimal digits; any other character, or no character at all,
  raises \<open>ValueError\<close>, and so do more than \<open>max_str_digits\<close> digits.  (Signs, blanks
  and underscores, which \<open>int\<close> also accepts, never reach it here: the agent passes regex
  tokens with the commas removed.)  Below the limit Python integers are unbounded.
\<close>

primrec int_digits :: "int \<Rightarrow> str \<Rightarrow> error + int" where
  "int_digits acc [] = Inr acc"
| "int_digits acc (c # cs) =
     (case decimal_value c of
        None \<Rightarrow> Inl ValueError
      | Some v \<Rightarrow> int_digits (10 * acc + int v) cs)"

definition py_int :: "str \<Rightarrow> error + int" where
  "py_int s =
     (if s = [] then Inl ValueError
      else if max_str_digits < length s then Inl ValueError
      else int_digits 0 s)"

text \<open>
  The decimal text of an integer: ASCII digits, no leading zero.  \<open>py_str\<close> is
  \<open>str(n)\<close> as the f-string calls it, with the limit on the number of digits.
\<close>

function nat_str :: "nat \<Rightarrow> str" where
  "nat_str n = (if n < 10 then [48 + n] else nat_str (n div 10) @ [48 + n mod 10])"
  by pat_completeness auto
termination
  by (relation "measure id") auto

declare nat_str.simps [simp del]

definition int_str :: "int \<Rightarrow> str" where
  "int_str i = (if i < 0 then 45 # nat_str (nat (- i)) else nat_str (nat i))"

definition py_str :: "int \<Rightarrow> error + str" where
  "py_str i =
     (if max_str_digits < length (nat_str (nat \<bar>i\<bar>)) then Inl ValueError
      else Inr (int_str i))"

section \<open>Budget parsing\<close>

datatype budget_category = Budget_Low | Budget_Medium | Budget_High | Budget_Unknown

primrec budget_category_str :: "budget_category \<Rightarrow> str" where
  "budget_category_str Budget_Low = ascii ''Low''"
| "budget_category_str Budget_Medium = ascii ''Medium''"
| "budget_category_str Budget_High = ascii ''High''"
| "budget_category_str Budget_Unknown = ascii ''Unknown''"

text \<open>
  \<open>re.findall(r"\d+(?:,\d{3})*", budget_str)\<close>.  At a digit, \<open>\d+\<close> takes the whole run
  of digits; the starred group then takes a comma followed by three digits as long as it
  can.  The expression cannot fail once a digit is read, so nothing is given back by
  backtracking.  The scan goes on after the token; a character that is no digit is skipped.
  \<open>comma_groups\<close> returns the text taken by the starred group and the text left.
\<close>

fun comma_groups :: "str \<Rightarrow> str \<times> str" where
  "comma_groups (c # d1 # d2 # d3 # rest) =
     (if c = 44 \<and> is_decimal d1 \<and> is_decimal d2 \<and> is_decimal d3
      then (case comma_groups rest of (g, r) \<Rightarrow> (c # d1 # d2 # d3 # g, r))
      else ([], c # d1 # d2 # d3 # rest))"
| "comma_groups s = ([], s)"

function findall_numbers :: "str \<Rightarrow> str list" where
  "findall_numbers [] = []"
| "findall_numbers (c # cs) =
     (if is_decimal c
      then (case comma_groups (dropWhile is_decimal cs) of
              (g, r) \<Rightarrow> (c # takeWhile is_decimal cs @ g) # findall_numbers r)
      else findall_numbers cs)"
  by pat_completeness auto
termination
proof (relation "measure length")
  have cg: "length (snd (comma_groups s)) \<le> length s" for s
    by (induction s rule: comma_groups.induct) (auto split: prod.splits)
  show "wf (measure length)" by simp
  show "(r, c # cs) \<in> measure length"
    if "is_decimal c" and "(g, r) = comma_groups (dropWhile is_decimal cs)"
    for c :: nat and cs g r
  proof -
    have "length r \<le> length (dropWhile is_decimal cs)"
      using cg [of "dropWhile is_decimal cs"] that(2) by (metis snd_conv)
    also have "\<dots> \<le> length cs" by (rule length_dropWhile_le)
    finally show ?thesis by simp
  qed
  show "(cs, c # cs) \<in> measure length" for c :: nat and cs by simp
qed

text \<open>\<open>[int(num.replace(",", "")) for num in numbers]\<close>; the first error ends it.\<close>

primrec amounts_of :: "str list \<Rightarrow> error + int list" where
  "amounts_of [] = Inr []"
| "amounts_of (num # nums) =
     (case py_int (filter (\<lambda>c. c \<noteq> 44) num) of
        Inl e \<Rightarrow> Inl e
      | Inr a \<Rightarrow> (case amounts_of nums of Inl e \<Rightarrow> Inl e | Inr as \<Rightarrow> Inr (a # as)))"

definition budget_class :: "int \<Rightarrow> budget_category" where
  "budget_class high =
     (if high \<le> 3000 then Budget_Low else if high \<le> 8000 then Budget_Medium else Budget_High)"

text \<open>
  The line \<open>range_str = f"..{low}..{high}" if low != high else f"..{low}"\<close>, with the
  rupee sign before each amount and an en dash between the two.
\<close>

definition format_range :: "int \<Rightarrow> int \<Rightarrow> error + str" where
  "format_range low high =
     (if low \<noteq> high
      then (case py_str low of
              Inl e \<Rightarrow> Inl e
            | Inr l \<Rightarrow>
                (case py_str high of
                   Inl e \<Rightarrow> Inl e
                 | Inr h \<Rightarrow> Inr (rupee # l @ en_dash # rupee # h)))
      else (case py_str low of Inl e \<Rightarrow> Inl e | Inr l \<Rightarrow> Inr (rupee # l)))"

text \<open>
  \<open>_parse_budget(budget_str)\<close> returns the pair \<open>(range_str, category)\<close>.  \<open>min\<close> and
  \<open>max\<close> run over a list that is not empty there.
\<close>

definition parse_budget :: "str option \<Rightarrow> error + (str \<times> budget_category)" where
  "parse_budget budget_str =
     (case budget_str of
        None \<Rightarrow> Inr (ascii ''Unknown'', Budget_Unknown)
      | Some b \<Rightarrow>
          if b = [] then Inr (ascii ''Unknown'', Budget_Unknown)
          else
            (case findall_numbers b of
               [] \<Rightarrow> Inr (ascii ''Unknown'', Budget_Unknown)
             | num # nums \<Rightarrow>
                 (case amounts_of (num # nums) of
                    Inl e \<Rightarrow> Inl e
                  | Inr [] \<Rightarrow> Inr (ascii ''Unknown'', Budget_Unknown)
                  | Inr (a # as) \<Rightarrow>
                      (let low = fold min as a;
                           high = fold max as a;
                           category = budget_class high
                       in case format_range low high of
                            Inl e \<Rightarrow> Inl e
                          | Inr range_str \<Rightarrow> Inr (range_str, category)))))"

section \<open>Urgency\<close>

datatype urgency = Immediate | Short_Term | Long_Term

primrec urgency_str :: "urgency \<Rightarrow> str" where
  "urgency_str Immediate = ascii ''Immediate''"
| "urgency_str Short_Term = ascii ''Short'' @ nb_hyphen # ascii ''Term''"
| "urgency_str Long_Term = ascii ''Long'' @ nb_hyphen # ascii ''Term''"

text \<open>
  \<open>re.search(r"(\d+)\s*(?:day|days)", s, re.IGNORECASE)\<close> and its twin for hours;
  \<open>unit\<close> is the word.  \<open>match_here\<close> is an attempt at one position and yields group 1.
  The greedy attempt decides it: \<open>\d+\<close> takes the whole run of digits, \<open>\s*\<close> the whole
  run of blanks, and giving characters back cannot help, since the word starts with a
  letter, which is neither a digit nor a blank.  \<open>re_search\<close> tries the positions from
  left to right and returns the first match.
\<close>

definition match_here :: "str \<Rightarrow> str \<Rightarrow> str option" where
  "match_here unit s =
     (let digits = takeWhile is_decimal s;
          rest = dropWhile is_space (dropWhile is_decimal s)
      in if digits \<noteq> [] \<and> (ci_starts_with rest unit \<or> ci_starts_with rest (unit @ [115]))
         then Some digits else None)"

primrec re_search :: "str \<Rightarrow> str \<Rightarrow> str option" where
  "re_search unit [] = None"
| "re_search unit (c # cs) =
     (case match_here unit (c # cs) of
        Some g \<Rightarrow> Some g
      | None \<Rightarrow> re_search unit cs)"

definition determine_urgency :: "str option \<Rightarrow> error + urgency" where
  "determine_urgency urgency_text =
     (case urgency_text of
        None \<Rightarrow> Inr Long_Term
      | Some u \<Rightarrow>
          if u = [] then Inr Long_Term
          else
            (let days_match = re_search (ascii ''day'') u;
                 hours_match = re_search (ascii ''hour'') u
             in case hours_match of
                  Some g \<Rightarrow>
                    (case py_int g of
                       Inl e \<Rightarrow> Inl e
                     | Inr hours \<Rightarrow> Inr (if hours \<le> 48 then Immediate else Short_Term))
                | None \<Rightarrow>
                    (case days_match of
                       Some g \<Rightarrow>
                         (case py_int g of
                            Inl e \<Rightarrow> Inl e
                          | Inr days \<Rightarrow>
                              if days \<le> 2 then Inr Immediate
                              else if days \<le> 7 then Inr Short_Term
                              else Inr Long_Term)
                     | None \<Rightarrow> Inr Long_Term)))"

section \<open>Subject complexity\<close>

datatype complexity = Complexity_High | Complexity_Medium | Complexity_Low | Complexity_Unknown

primrec complexity_str :: "complexity \<Rightarrow> str" where
  "complexity_str Complexity_High = ascii ''High''"
| "complexity_str Complexity_Medium = ascii ''Medium''"
| "complexity_str Complexity_Low = ascii ''Low''"
| "complexity_str Complexity_Unknown = ascii ''Unknown''"

text \<open>
  The keyword sets are Python sets, iterated in an order the program does not fix; they are
  listed here in the order of the source text.
\<close>

definition high_complexity_keywords :: "str list" where
  "high_complexity_keywords =
     [ascii ''JEE'', ascii ''NEET'', ascii ''IIT'', ascii ''IB'', ascii ''IGCSE'']"

definition medium_complexity_keywords :: "str list" where
  "medium_complexity_keywords =
     [ascii ''Math'', ascii ''Physics'', ascii ''Chemistry'', ascii ''Biology'']"

text \<open>
  The inner loop \<open>for keyword in keywords: if keyword.lower() in sub.lower(): return\<close>
  and the outer loop over the subjects; \<open>True\<close> stands for reaching the \<open>return\<close>.
\<close>

primrec keyword_hit :: "str \<Rightarrow> str list \<Rightarrow> bool" where
  "keyword_hit sub [] = False"
| "keyword_hit sub (keyword # keywords) =
     (if contains (lower sub) (lower keyword) then True else keyword_hit sub keywords)"

primrec subject_hit :: "str list \<Rightarrow> str list \<Rightarrow> bool" where
  "subject_hit keywords [] = False"
| "subject_hit keywords (sub # subs) =
     (if keyword_hit sub keywords then True else subject_hit keywords subs)"

definition assess_subject_complexity :: "str list option \<Rightarrow> complexity" where
  "assess_subject_complexity subjects =
     (case subjects of
        None \<Rightarrow> Complexity_Unknown
      | Some subs \<Rightarrow>
          if subs = [] then Complexity_Unknown
          else if subject_hit high_complexity_keywords subs then Complexity_High
          else if subject_hit medium_complexity_keywords subs then Complexity_Medium
          else Complexity_Low)"

section \<open>Floating point of the confidence\<close>

text \<open>
  \<open>abs(quality_score - 50) / 50 * 100\<close> is computed in binary64: the true division of two
  integers is the double nearest to the exact quotient, and the product is rounded to the
  nearest double again; ties go to the even significand.  A finite double is represented by
  the rational number it denotes.  \<open>to_binary64\<close> rounds a rational to 53 significant
  bits; exponent limits (overflow, subnormal numbers) are left out, the values of the agent
  lying between \<open>1/50\<close> and \<open>100\<close>.  \<open>round(x)\<close> on a float rounds to the nearest
  integer, ties to the even one.
\<close>

function bit_length :: "nat \<Rightarrow> nat" where
  "bit_length n = (if n = 0 then 0 else Suc (bit_length (n div 2)))"
  by pat_completeness auto
termination
  by (relation "measure id") auto

declare bit_length.simps [simp del]

definition floor_log2 :: "rat \<Rightarrow> int" where
  "floor_log2 x =
     (if 1 \<le> x then int (bit_length (nat \<lfloor>x\<rfloor>)) - 1
      else - int (bit_length (nat \<lceil>1 / x\<rceil> - 1)))"

definition round_half_even :: "rat \<Rightarrow> int" where
  "round_half_even x =
     (let f = \<lfloor>x\<rfloor>; d = x - of_int f
      in if d < 1 / 2 then f
         else if 1 / 2 < d then f + 1
         else if even f then f else f + 1)"

definition to_binary64 :: "rat \<Rightarrow> rat" where
  "to_binary64 x =
     (if x = 0 then 0
      else (let ulp = 2 powi (floor_log2 \<bar>x\<bar> - 52)
            in of_int (round_half_even (x / ulp)) * ulp))"

definition int_truediv :: "int \<Rightarrow> int \<Rightarrow> rat" where
  "int_truediv a b = to_binary64 (of_int a / of_int b)"

definition float_mul :: "rat \<Rightarrow> rat \<Rightarrow> rat" where
  "float_mul x y = to_binary64 (x * y)"

definition py_round :: "rat \<Rightarrow> int" where
  "py_round x = round_half_even x"

section \<open>The aggregator\<close>

text \<open>The dataclass fields of \<open>LeadQualificationAgent\<close>, with their defaults.\<close>

record agent =
  high_intent_threshold :: int
  medium_intent_threshold :: int
  low_intent_threshold :: int

definition default_agent :: agent where
  "default_agent =
     \<lparr>high_intent_threshold = 80, medium_intent_threshold = 60, low_intent_threshold = 40\<rparr>"

text \<open>
  The lead is a dictionary read with \<open>lead.get\<close>: a key that is missing reads as
  \<open>None\<close>.  The record has one optional field for each key the agent reads, typed as the
  annotations and the extractors require (text fields are \<open>str\<close>, \<open>subjects\<close> is a list
  of \<open>str\<close>).
\<close>

record lead =
  lead_id :: "str option"
  mode_preference :: "str option"
  mode :: "str option"
  subjects :: "str list option"
  budget :: "str option"
  budget_range :: "str option"
  urgency :: "str option"
  location :: "str option"

datatype quality_label = Label_High | Label_Medium | Label_Low | Label_Invalid

primrec quality_label_str :: "quality_label \<Rightarrow> str" where
  "quality_label_str Label_High = ascii ''High''"
| "quality_label_str Label_Medium = ascii ''Medium''"
| "quality_label_str Label_Low = ascii ''Low''"
| "quality_label_str Label_Invalid = ascii ''Invalid''"

datatype intent = High_Intent | Medium_Intent | Low_Intent

primrec intent_str :: "intent \<Rightarrow> str" where
  "intent_str High_Intent = ascii ''High Intent''"
| "intent_str Medium_Intent = ascii ''Medium Intent''"
| "intent_str Low_Intent = ascii ''Low Intent''"

datatype next_agent =
  Tutor_Matching_Agent | Sales_Closure_Agent | Academic_Counselor_Agent
  | WhatsApp_Nurture_Agent | Archive_Ignore_Agent

primrec next_agent_str :: "next_agent \<Rightarrow> str" where
  "next_agent_str Tutor_Matching_Agent = ascii ''Tutor Matching Agent''"
| "next_agent_str Sales_Closure_Agent = ascii ''Sales Closure Agent''"
| "next_agent_str Academic_Counselor_Agent = ascii ''Academic Counselor Agent''"
| "next_agent_str WhatsApp_Nurture_Agent = ascii ''WhatsApp Nurture Agent''"
| "next_agent_str Archive_Ignore_Agent = ascii ''Archive / Ignore Agent''"

text \<open>
  The running pair \<open>(quality_score, reasoning_lines)\<close>, updated by the four blocks of
  \<open>qualify_lead\<close> in the order of the source.
\<close>

type_synonym scoring = "int \<times> str list"

definition budget_adjustment :: "budget_category \<Rightarrow> scoring \<Rightarrow> scoring" where
  "budget_adjustment budget_category s =
     (case s of (quality_score, reasoning_lines) \<Rightarrow>
        if budget_category = Budget_Low
        then (quality_score + 5,
              reasoning_lines @ [ascii ''Low budget implies affordability; small boost.''])
        else if budget_category = Budget_Medium
        then (quality_score + 10,
              reasoning_lines @ [ascii ''Medium budget suggests moderate affordability.''])
        else if budget_category = Budget_High
        then (quality_score + 20,
              reasoning_lines @ [ascii ''High budget indicates strong ability to pay.''])
        else (quality_score, reasoning_lines))"

definition urgency_adjustment :: "urgency \<Rightarrow> scoring \<Rightarrow> scoring" where
  "urgency_adjustment urgency_level s =
     (case s of (quality_score, reasoning_lines) \<Rightarrow>
        if urgency_level = Immediate
        then (quality_score + 20,
              reasoning_lines @ [ascii ''Immediate urgency indicates high intent.''])
        else if urgency_level = Short_Term
        then (quality_score + 10,
              reasoning_lines @
                [ascii ''Short'' @ nb_hyphen # ascii ''term urgency indicates medium intent.''])
        else (quality_score, reasoning_lines))"

definition complexity_adjustment :: "complexity \<Rightarrow> scoring \<Rightarrow> scoring" where
  "complexity_adjustment subject_complexity s =
     (case s of (quality_score, reasoning_lines) \<Rightarrow>
        if subject_complexity = Complexity_High
        then (quality_score + 15,
              reasoning_lines @ [ascii ''High complexity subjects require specialized tutors.''])
        else if subject_complexity = Complexity_Medium
        then (quality_score + 5,
              reasoning_lines @
                [ascii ''Medium complexity subjects are common but significant.''])
        else (quality_score, reasoning_lines))"

definition feasibility_adjustment :: "int \<Rightarrow> scoring \<Rightarrow> scoring" where
  "feasibility_adjustment location_feasibility_score s =
     (case s of (quality_score, reasoning_lines) \<Rightarrow>
        if location_feasibility_score \<ge> 80
        then (quality_score + 10,
              reasoning_lines @ [ascii ''Precise location makes home tutoring feasible.''])
        else if location_feasibility_score \<le> 60
        then (quality_score - 5,
              reasoning_lines @ [ascii ''Generic location lowers match confidence.''])
        else (quality_score, reasoning_lines))"

record report =
  lead_id :: str
  lead_quality_score :: int
  lead_quality_label :: quality_label
  intent_level :: intent
  urgency_level :: urgency
  budget_range_inferred :: str
  preferred_mode :: str
  subject_complexity :: complexity
  location_feasibility_score :: int
  recommended_next_agent :: next_agent
  confidence_in_recommendation :: int
  reasoning_summary :: str
  memory_tags :: "str list"
  human_attention_required :: bool

text \<open>\<open>"; ".join(lines)\<close> and \<open>s.replace(' ', '-')\<close>.\<close>

fun join_lines :: "str list \<Rightarrow> str" where
  "join_lines [] = []"
| "join_lines [l] = l"
| "join_lines (l # m # ls) = l @ ascii ''; '' @ join_lines (m # ls)"

definition replace_space :: "str \<Rightarrow> str" where
  "replace_space s = map (\<lambda>c. if c = 32 then 45 else c) s"

text \<open>
  The part of \<open>qualify_lead\<close> that follows the four extractor calls: scoring, clamping,
  label, routing, confidence, summary and tags.
\<close>

definition aggregate ::
  "agent \<Rightarrow> str \<Rightarrow> str \<Rightarrow> str \<Rightarrow> budget_category \<Rightarrow> urgency \<Rightarrow> complexity \<Rightarrow> int \<Rightarrow> report"
where
  "aggregate self lid mode_text budget_range_text budget_category urgency_lvl complexity_lvl
       feasibility =
     (let scored =
            feasibility_adjustment feasibility
              (complexity_adjustment complexity_lvl
                (urgency_adjustment urgency_lvl
                  (budget_adjustment budget_category (50, []))));
          reasoning_lines = snd scored;
          quality_score = max 0 (min 100 (fst scored));
          label =
            (if quality_score \<ge> high_intent_threshold self then Label_High
             else if quality_score \<ge> medium_intent_threshold self then Label_Medium
             else if quality_score \<ge> low_intent_threshold self then Label_Low
             else Label_Invalid);
          intent_lvl =
            (if quality_score \<ge> high_intent_threshold self then High_Intent
             else if quality_score \<ge> medium_intent_threshold self then Medium_Intent
             else Low_Intent);
          recommended_agent =
            (if label = Label_High
             then (if urgency_lvl = Immediate then Tutor_Matching_Agent
                   else Sales_Closure_Agent)
             else if label = Label_Medium then Academic_Counselor_Agent
             else if label = Label_Low then WhatsApp_Nurture_Agent
             else Archive_Ignore_Agent);
          confidence =
            py_round (float_mul (int_truediv \<bar>quality_score - 50\<bar> 50) 100);
          summary =
            (if join_lines reasoning_lines = []
             then ascii ''Lead evaluated with default heuristics.''
             else join_lines reasoning_lines);
          tags =
            [ascii ''budget:'' @ lower (budget_category_str budget_category),
             ascii ''urgency:'' @ lower (urgency_str urgency_lvl),
             ascii ''complexity:'' @ lower (complexity_str complexity_lvl),
             ascii ''intent:'' @ replace_space (lower (intent_str intent_lvl))]
      in \<lparr>lead_id = lid,
          lead_quality_score = quality_score,
          lead_quality_label = label,
          intent_level = intent_lvl,
          urgency_level = urgency_lvl,
          budget_range_inferred = budget_range_text,
          preferred_mode = mode_text,
          subject_complexity = complexity_lvl,
          location_feasibility_score = feasibility,
          recommended_next_agent = recommended_agent,
          confidence_in_recommendation = confidence,
          reasoning_summary = summary,
          memory_tags = tags,
          human_attention_required =
            (if label = Label_High \<or> label = Label_Medium then False else True)\<rparr>)"

text \<open>\<open>x or d\<close> with a default \<open>d\<close> that is not \<open>None\<close>.\<close>

definition or_default :: "'a list option \<Rightarrow> 'a list \<Rightarrow> 'a list" where
  "or_default a d = (case a of None \<Rightarrow> d | Some s \<Rightarrow> if s = [] then d else s)"

text \<open>
  \<open>qualify_lead(lead)\<close>.  The extractors run in the order of the source; an exception of
  \<open>_parse_budget\<close> or \<open>_determine_urgency\<close> leaves the function at that call.
\<close>

definition qualify_lead :: "agent \<Rightarrow> lead \<Rightarrow> error + report" where
  "qualify_lead self ld =
     (let lid = or_default (lead.lead_id ld) [];
          mode_text = or_default (py_or (mode_preference ld) (mode ld)) (ascii ''Unknown'');
          subject_list = or_default (subjects ld) [];
          budget_text = py_or (budget ld) (budget_range ld);
          urgency_text = urgency ld
      in case parse_budget budget_text of
           Inl e \<Rightarrow> Inl e
         | Inr (budget_range_text, budget_category) \<Rightarrow>
             (case determine_urgency urgency_text of
                Inl e \<Rightarrow> Inl e
              | Inr urgency_lvl \<Rightarrow>
                  (let complexity_lvl = assess_subject_complexity (Some subject_list);
                       feasibility =
                         compute_location_feasibility (location ld) (Some mode_text)
                   in Inr (aggregate self lid mode_text budget_range_text budget_category
                             urgency_lvl complexity_lvl feasibility))))"

section \<open>The wording of the budget and subject rules\<close>

text \<open>
  The digits of a number found in the budget text, its commas left out: what \<open>int\<close>
  is given to read.
\<close>

definition number_digits :: "str \<Rightarrow> nat" where
  "number_digits num = length (filter (\<lambda>c. c \<noteq> 44) num)"

text \<open>
  Letter case aside, said without \<open>lower\<close>: two characters are the same letter when
  they are equal or are the capital and the small form of one ASCII letter; a subject
  mentions a keyword when some run of it matches the keyword letter by letter.
\<close>

definition same_letter :: "nat \<Rightarrow> nat \<Rightarrow> bool" where
  "same_letter a b =
     (a = b \<or> (65 \<le> a \<and> a \<le> 90 \<and> b = a + 32) \<or> (65 \<le> b \<and> b \<le> 90 \<and> a = b + 32))"

definition mentions :: "str \<Rightarrow> str \<Rightarrow> bool" where
  "mentions sub kw = (\<exists>p w r. sub = p @ w @ r \<and> list_all2 same_letter w kw)"

section \<open>The wording of the urgency rule\<close>





section \<open>Properties\<close>

lemma starts_with_iff: "starts_with s kw \<longleftrightarrow> (\<exists>r. s = kw @ r)"
  by (induction kw arbitrary: s) (auto split: list.splits)

lemma contains_iff: "contains s kw \<longleftrightarrow> (\<exists>p r. s = p @ kw @ r)"
proof (induction s)
  case Nil
  then show ?case by auto
next
  case (Cons c cs)
  show ?case
  proof
    assume "contains (c # cs) kw"
    then consider "starts_with (c # cs) kw" | "contains cs kw" by auto
    then show "\<exists>p r. c # cs = p @ kw @ r"
    proof cases
      case 1
      then obtain r where "c # cs = kw @ r" by (auto simp: starts_with_iff)
      then have "c # cs = [] @ kw @ r" by simp
      then show ?thesis by blast
    next
      case 2
      then obtain p r where "cs = p @ kw @ r" using Cons.IH by blast
      then have "c # cs = (c # p) @ kw @ r" by simp
      then show ?thesis by blast
    qed
  next
    assume "\<exists>p r. c # cs = p @ kw @ r"
    then obtain p r where e: "c # cs = p @ kw @ r" by blast
    show "contains (c # cs) kw"
    proof (cases p)
      case Nil
      with e have "starts_with (c # cs) kw" by (auto simp: starts_with_iff)
      then show ?thesis by simp
    next
      case (Cons a p')
      with e have "cs = p' @ kw @ r" by simp
      then have "contains cs kw" using Cons.IH by blast
      then show ?thesis by simp
    qed
  qed
qed

subsection \<open>When the extractors raise\<close>

lemma error_is_ValueError: "(e :: error) = ValueError"
  by (cases e) simp

lemma is_decimal_iff: "is_decimal c \<longleftrightarrow> (\<exists>z\<in>set decimal_zeros. z \<le> c \<and> c \<le> z + 9)"
  by (auto simp: is_decimal_def decimal_value_def find_None_iff)

lemma comma_not_decimal: "\<not> is_decimal 44"
  by (simp add: is_decimal_def decimal_value_def decimal_zeros_def)

lemma decimal_value_low:
  "c < 1632 \<Longrightarrow> decimal_value c = (if 48 \<le> c \<and> c \<le> 57 then Some (c - 48) else None)"
  by (simp add: decimal_value_def decimal_zeros_def)

lemma decimal_value_le_9: "decimal_value c = Some v \<Longrightarrow> v \<le> 9"
  by (auto simp: decimal_value_def find_Some_iff)

lemma int_digits_total: "list_all is_decimal s \<Longrightarrow> \<exists>n. int_digits acc s = Inr n"
  by (induction s arbitrary: acc) (auto simp: is_decimal_def)

lemma int_digits_bounds:
  "int_digits acc s = Inr n \<Longrightarrow> 0 \<le> acc \<Longrightarrow> 0 \<le> n \<and> n < (acc + 1) * 10 ^ length s"
proof (induction s arbitrary: acc)
  case Nil
  then show ?case by simp
next
  case (Cons c cs)
  from Cons.prems(1) obtain v where v: "decimal_value c = Some v"
    and rest: "int_digits (10 * acc + int v) cs = Inr n"
    by (auto split: option.splits)
  from v have v9: "int v \<le> 9" using decimal_value_le_9 by fastforce
  from Cons.prems(2) have "0 \<le> 10 * acc + int v" by simp
  from Cons.IH [OF rest this]
  have n: "0 \<le> n" "n < (10 * acc + int v + 1) * 10 ^ length cs" by auto
  have "(10 * acc + int v + 1) * 10 ^ length cs \<le> (10 * acc + 10) * (10 :: int) ^ length cs"
    using v9 by (intro mult_right_mono) auto
  also have "\<dots> = (acc + 1) * (10 * 10 ^ length cs)" by (simp add: algebra_simps)
  finally have "(10 * acc + int v + 1) * 10 ^ length cs \<le> (acc + 1) * (10 * 10 ^ length cs)" .
  with n(2) have "n < (acc + 1) * (10 * 10 ^ length cs)" by linarith
  with n(1) show ?case by simp
qed

lemma py_int_returns:
  "s \<noteq> [] \<Longrightarrow> list_all is_decimal s \<Longrightarrow> length s \<le> max_str_digits \<Longrightarrow>
     \<exists>n. py_int s = Inr n"
  by (simp add: py_int_def int_digits_total)


lemma py_int_bounds:
  assumes "py_int s = Inr n"
  shows "0 \<le> n \<and> n < 10 ^ max_str_digits"
proof -
  from assms have len: "length s \<le> max_str_digits" and d: "int_digits 0 s = Inr n"
    by (auto simp: py_int_def split: if_splits)
  from int_digits_bounds [OF d] have n: "0 \<le> n" "n < 10 ^ length s" by auto
  have "(10 :: int) ^ length s \<le> 10 ^ max_str_digits"
    using len by (intro power_increasing) auto
  with n show ?thesis by linarith
qed

lemma nat_str_length: "n < 10 ^ k \<Longrightarrow> 0 < k \<Longrightarrow> length (nat_str n) \<le> k"
proof (induction n arbitrary: k rule: nat_str.induct)
  case (1 n)
  show ?case
  proof (cases "n < 10")
    case True
    with "1.prems" show ?thesis by (subst nat_str.simps) simp
  next
    case False
    from "1.prems" obtain j where k: "k = Suc j" by (cases k) auto
    from False "1.prems"(1) have "j \<noteq> 0" unfolding k by (cases j) auto
    then have j: "0 < j" by simp
    from "1.prems"(1) have "n div 10 < 10 ^ j"
      unfolding k by (simp add: less_mult_imp_div_less mult.commute)
    from "1.IH" [OF False this j] have "length (nat_str (n div 10)) \<le> j" .
    with False show ?thesis unfolding k by (subst nat_str.simps) simp
  qed
qed

lemma py_str_of_py_int:
  assumes "py_int s = Inr n"
  shows "py_str n = Inr (int_str n)"
proof -
  from py_int_bounds [OF assms] have n: "0 \<le> n" "n < 10 ^ max_str_digits" by auto
  then have "nat \<bar>n\<bar> < 10 ^ max_str_digits"
    by (simp add: nat_less_iff)
  then have "length (nat_str (nat \<bar>n\<bar>)) \<le> max_str_digits"
    by (rule nat_str_length) (simp add: max_str_digits_def)
  then show ?thesis by (simp add: py_str_def)
qed

lemma comma_groups_chars:
  "comma_groups s = (g, r) \<Longrightarrow> list_all (\<lambda>c. c = 44 \<or> is_decimal c) g"
proof (induction s arbitrary: g r rule: comma_groups.induct)
  case (1 c d1 d2 d3 rest)
  then show ?case by (auto split: if_splits prod.splits)
qed auto

lemma comma_groups_append: "comma_groups s = (g, r) \<Longrightarrow> s = g @ r"
proof (induction s arbitrary: g r rule: comma_groups.induct)
  case (1 c d1 d2 d3 rest)
  then show ?case by (auto split: if_splits prod.splits)
qed auto

lemma findall_tokens:
  "t \<in> set (findall_numbers s) \<Longrightarrow>
     t \<noteq> [] \<and> is_decimal (hd t) \<and> list_all (\<lambda>c. c = 44 \<or> is_decimal c) t"
proof (induction s rule: findall_numbers.induct)
  case 1
  then show ?case by simp
next
  case (2 c cs)
  show ?case
  proof (cases "is_decimal c")
    case False
    with 2 show ?thesis by simp
  next
    case True
    obtain g r where gr: "comma_groups (dropWhile is_decimal cs) = (g, r)"
      by (cases "comma_groups (dropWhile is_decimal cs)")
    from 2(3) True gr have "t = c # takeWhile is_decimal cs @ g \<or> t \<in> set (findall_numbers r)"
      by simp
    then show ?thesis
    proof
      assume t: "t = c # takeWhile is_decimal cs @ g"
      have "list_all (\<lambda>c. c = 44 \<or> is_decimal c) (takeWhile is_decimal cs)"
        by (simp add: list_all_iff) (meson set_takeWhileD)
      with t True comma_groups_chars [OF gr] show ?thesis by simp
    next
      assume "t \<in> set (findall_numbers r)"
      with 2(1) [OF True gr [symmetric]] show ?thesis by simp
    qed
  qed
qed

lemma findall_token_length:
  "t \<in> set (findall_numbers s) \<Longrightarrow> length t \<le> length s"
proof (induction s rule: findall_numbers.induct)
  case 1
  then show ?case by simp
next
  case (2 c cs)
  show ?case
  proof (cases "is_decimal c")
    case False
    with 2 show ?thesis by (simp add: le_SucI)
  next
    case True
    obtain g r where gr: "comma_groups (dropWhile is_decimal cs) = (g, r)"
      by (cases "comma_groups (dropWhile is_decimal cs)")
    have split: "length (takeWhile is_decimal cs) + length g + length r = length cs"
    proof -
      have "length (takeWhile is_decimal cs @ dropWhile is_decimal cs) = length cs" by simp
      then show ?thesis
        using comma_groups_append [OF gr] by (simp del: takeWhile_dropWhile_id)
    qed
    from 2(3) True gr have "t = c # takeWhile is_decimal cs @ g \<or> t \<in> set (findall_numbers r)"
      by simp
    then show ?thesis
    proof
      assume "t = c # takeWhile is_decimal cs @ g"
      with split show ?thesis by simp
    next
      assume "t \<in> set (findall_numbers r)"
      with 2(1) [OF True gr [symmetric]] have "length t \<le> length r" by simp
      with split show ?thesis by simp
    qed
  qed
qed

lemma number_digits_le: "number_digits t \<le> length t"
  by (simp add: number_digits_def)

lemma token_amount:
  assumes "t \<noteq> []" "is_decimal (hd t)" "list_all (\<lambda>c. c = 44 \<or> is_decimal c) t"
    and "number_digits t \<le> max_str_digits"
  shows "\<exists>n. py_int (filter (\<lambda>c. c \<noteq> 44) t) = Inr n"
proof -
  from assms(1,2) have "hd t \<in> set (filter (\<lambda>c. c \<noteq> 44) t)"
    using comma_not_decimal by (cases t) auto
  then have ne: "filter (\<lambda>c. c \<noteq> 44) t \<noteq> []" by (metis empty_iff empty_set)
  from assms(3) have "list_all is_decimal (filter (\<lambda>c. c \<noteq> 44) t)"
    by (auto simp: list_all_iff)
  with ne show ?thesis
    using assms(4) by (intro py_int_returns) (simp_all add: number_digits_def)
qed


lemma amounts_of_returns:
  assumes "\<And>t. t \<in> set ts \<Longrightarrow>
      t \<noteq> [] \<and> is_decimal (hd t) \<and> list_all (\<lambda>c. c = 44 \<or> is_decimal c) t"
    and "list_all (\<lambda>t. number_digits t \<le> max_str_digits) ts"
  shows "\<exists>as. amounts_of ts = Inr as \<and> length as = length ts"
  using assms
proof (induction ts)
  case Nil
  then show ?case by simp
next
  case (Cons t ts)
  then obtain n where "py_int (filter (\<lambda>c. c \<noteq> 44) t) = Inr n"
    using token_amount [of t] by auto
  moreover obtain as where "amounts_of ts = Inr as" "length as = length ts"
    using Cons by auto
  ultimately show ?case by simp
qed


lemma amounts_of_formattable:
  "amounts_of ts = Inr as \<Longrightarrow> a \<in> set as \<Longrightarrow> py_str a = Inr (int_str a)"
proof (induction ts arbitrary: as)
  case Nil
  then show ?case by simp
next
  case (Cons t ts)
  from Cons.prems(1) obtain n ns where n: "py_int (filter (\<lambda>c. c \<noteq> 44) t) = Inr n"
    and ns: "amounts_of ts = Inr ns" and as: "as = n # ns"
    by (auto split: sum.splits)
  from Cons.prems(2) as have "a = n \<or> a \<in> set ns" by simp
  then show ?case
  proof
    assume "a = n"
    with py_str_of_py_int [OF n] show ?thesis by simp
  next
    assume "a \<in> set ns"
    with Cons.IH [OF ns] show ?thesis by simp
  qed
qed

lemma format_range_amounts:
  assumes "amounts_of ts = Inr as" and "lo \<in> set as" and "hi \<in> set as"
  shows "format_range lo hi =
     Inr (if lo \<noteq> hi then rupee # int_str lo @ en_dash # rupee # int_str hi
          else rupee # int_str lo)"
  using amounts_of_formattable [OF assms(1,2)] amounts_of_formattable [OF assms(1,3)]
  by (simp add: format_range_def)

lemma amounts_of_findall:
  "list_all (\<lambda>t. number_digits t \<le> max_str_digits) (findall_numbers s) \<Longrightarrow>
     \<exists>as. amounts_of (findall_numbers s) = Inr as \<and> length as = length (findall_numbers s)"
  by (rule amounts_of_returns) (rule findall_tokens)

lemma fold_min_Min: "fold min as (a :: int) = Min (set (a # as))"
  by (simp only: Min.set_eq_fold)

lemma fold_max_Max: "fold max as (a :: int) = Max (set (a # as))"
  by (simp only: Max.set_eq_fold)

lemma parse_budget_amounts:
  assumes "findall_numbers b \<noteq> []" and "amounts_of (findall_numbers b) = Inr amounts"
  shows "amounts \<noteq> [] \<and>
     parse_budget (Some b) =
       Inr (if Min (set amounts) \<noteq> Max (set amounts)
            then rupee # int_str (Min (set amounts)) @ en_dash # rupee # int_str (Max (set amounts))
            else rupee # int_str (Min (set amounts)),
            budget_class (Max (set amounts)))"
proof -
  from assms(1) have b: "b \<noteq> []" by auto
  from assms(1) obtain num nums where toks: "findall_numbers b = num # nums"
    by (cases "findall_numbers b") auto
  with assms(2) obtain a as where cons: "amounts = a # as"
    by (cases amounts) (auto split: sum.splits)
  define lo where "lo = fold min as a"
  define hi where "hi = fold max as a"
  have lo: "lo = Min (set amounts)" and hi: "hi = Max (set amounts)"
    unfolding lo_def hi_def cons by (rule fold_min_Min, rule fold_max_Max)
  have ne: "set amounts \<noteq> {}" using cons by simp
  have "lo \<in> set amounts" "hi \<in> set amounts"
    unfolding lo hi by (rule Min_in, simp, rule ne, rule Max_in, simp, rule ne)
  from format_range_amounts [OF assms(2) this]
  have fmt: "format_range lo hi =
     Inr (if lo \<noteq> hi then rupee # int_str lo @ en_dash # rupee # int_str hi
          else rupee # int_str lo)" .
  have "parse_budget (Some b) =
      Inr (if lo \<noteq> hi then rupee # int_str lo @ en_dash # rupee # int_str hi
           else rupee # int_str lo,
           budget_class hi)"
    using b toks assms(2) cons fmt
    by (simp add: parse_budget_def Let_def lo_def [symmetric] hi_def [symmetric])
  then show ?thesis unfolding lo hi using cons by simp
qed

lemma parse_budget_returns:
  assumes "list_all (\<lambda>t. number_digits t \<le> max_str_digits) (findall_numbers b)"
  shows "\<exists>range_text category. parse_budget (Some b) = Inr (range_text, category)"
proof (cases "findall_numbers b = []")
  case True
  then show ?thesis by (simp add: parse_budget_def)
next
  case False
  from amounts_of_findall [OF assms] obtain as
    where "amounts_of (findall_numbers b) = Inr as" by blast
  from parse_budget_amounts [OF False this] show ?thesis by blast
qed


lemma match_here_digits:
  "match_here unit s = Some g \<Longrightarrow> g \<noteq> [] \<and> list_all is_decimal g"
  by (auto simp: match_here_def Let_def list_all_iff split: if_splits dest: set_takeWhileD)

lemma re_search_digits:
  "re_search unit s = Some g \<Longrightarrow> g \<noteq> [] \<and> list_all is_decimal g"
  by (induction s) (auto split: option.splits dest: match_here_digits)

lemma match_here_length: "match_here unit s = Some g \<Longrightarrow> length g \<le> length s"
  by (auto simp: match_here_def Let_def length_takeWhile_le split: if_splits)

lemma re_search_length: "re_search unit s = Some g \<Longrightarrow> length g \<le> length s"
  by (induction s) (auto split: option.splits dest: match_here_length)

lemma re_search_int:
  "re_search unit s = Some g \<Longrightarrow> length g \<le> max_str_digits \<Longrightarrow> \<exists>n. py_int g = Inr n"
  using re_search_digits py_int_returns by blast

lemma determine_urgency_returns:
  assumes "\<And>g. re_search (ascii ''hour'') u = Some g \<Longrightarrow> length g \<le> max_str_digits"
    and "\<And>g. re_search (ascii ''hour'') u = None \<Longrightarrow> re_search (ascii ''day'') u = Some g \<Longrightarrow>
      length g \<le> max_str_digits"
  shows "\<exists>level. determine_urgency (Some u) = Inr level"
proof (cases "re_search (ascii ''hour'') u")
  case h: None
  show ?thesis
  proof (cases "re_search (ascii ''day'') u")
    case None
    with h show ?thesis by (simp add: determine_urgency_def)
  next
    case d: (Some g)
    with h assms(2) obtain n where "py_int g = Inr n" using re_search_int by blast
    with h d show ?thesis by (simp add: determine_urgency_def)
  qed
next
  case h: (Some g)
  with assms(1) obtain n where "py_int g = Inr n" using re_search_int by blast
  with h show ?thesis by (simp add: determine_urgency_def)
qed

lemma determine_urgency_short:
  assumes "length u \<le> max_str_digits"
  shows "\<exists>level. determine_urgency (Some u) = Inr level"
proof (rule determine_urgency_returns)
  fix g assume "re_search (ascii ''hour'') u = Some g"
  from re_search_length [OF this] assms show "length g \<le> max_str_digits" by simp
next
  fix g assume "re_search (ascii ''day'') u = Some g"
  from re_search_length [OF this] assms show "length g \<le> max_str_digits" by simp
qed

lemma parse_budget_short:
  assumes "length b \<le> max_str_digits"
  shows "\<exists>range_text category. parse_budget (Some b) = Inr (range_text, category)"
proof (rule parse_budget_returns)
  show "list_all (\<lambda>t. number_digits t \<le> max_str_digits) (findall_numbers b)"
    unfolding list_all_iff
  proof
    fix t assume "t \<in> set (findall_numbers b)"
    from findall_token_length [OF this] number_digits_le [of t] assms
    show "number_digits t \<le> max_str_digits" by simp
  qed
qed

subsection \<open>The confidence in binary64\<close>

lemma bit_length_0: "bit_length 0 = 0"
  by (simp add: bit_length.simps)

lemma bit_length_Suc_0: "bit_length (Suc 0) = Suc 0"
  by (subst bit_length.simps) (simp add: bit_length_0)

lemma bit_length_numeral: "bit_length (numeral k) = Suc (bit_length (numeral k div 2))"
  by (subst bit_length.simps) simp

lemma floor_numeral_quotient: "\<lfloor>(numeral a :: rat) / numeral b\<rfloor> = numeral a div numeral b"
  by (metis floor_divide_of_int_eq of_int_numeral)

lemma ceiling_numeral_quotient:
  "\<lceil>(numeral a :: rat) / numeral b\<rceil> = - (- numeral a div numeral b)"
  by (metis ceiling_divide_eq_div of_int_numeral)

lemmas binary64_eval =
  py_round_def float_mul_def int_truediv_def to_binary64_def floor_log2_def
  round_half_even_def Let_def bit_length_numeral bit_length_0 bit_length_Suc_0
  power_int_minus floor_numeral_quotient ceiling_numeral_quotient

lemma confidence_of_distance:
  assumes "0 \<le> k" "k \<le> 50"
  shows "py_round (float_mul (int_truediv k 50) 100) = 2 * k"
proof -
  from assms have "k \<in> set [0..50]" by simp
  then have "list_ex (\<lambda>i. k = i) [0..50]" by (simp add: list_ex_iff)
  then show ?thesis
    by (simp add: upto.simps, elim disjE) (simp_all add: binary64_eval)
qed

lemma round_half_even_of_int: "round_half_even (of_int n) = n"
  by (simp add: round_half_even_def)

lemma exact_confidence: "round_half_even (of_int k / 50 * 100) = 2 * k"
proof -
  have "(of_int k :: rat) / 50 * 100 = of_int (2 * k)" by simp
  then show ?thesis by (simp only: round_half_even_of_int)
qed

subsection \<open>The rounding to binary64\<close>

lemma bit_length_bounds:
  "0 < n \<Longrightarrow> 2 ^ (bit_length n - 1) \<le> n \<and> n < 2 ^ bit_length n"
proof (induction n rule: bit_length.induct)
  case (1 n)
  then have n: "n \<noteq> 0" by simp
  have bl: "bit_length n = Suc (bit_length (n div 2))"
    using n by (subst bit_length.simps) simp
  show ?case
  proof (cases "n div 2 = 0")
    case True
    with n have "n = 1" by (cases n) auto
    then show ?thesis by (simp add: bit_length_Suc_0)
  next
    case False
    then have "0 < n div 2" by simp
    from "1.IH" [OF n this]
    have lo: "2 ^ (bit_length (n div 2) - 1) \<le> n div 2"
      and hi: "n div 2 < 2 ^ bit_length (n div 2)" by auto
    have pos: "0 < bit_length (n div 2)"
      using False by (subst bit_length.simps) simp
    then have "(2::nat) ^ bit_length (n div 2) = 2 * 2 ^ (bit_length (n div 2) - 1)"
      by (cases "bit_length (n div 2)") auto
    with lo have "(2::nat) ^ bit_length (n div 2) \<le> 2 * (n div 2)" by simp
    also have "\<dots> \<le> n" by simp
    finally have 1: "2 ^ (bit_length n - 1) \<le> n" by (simp add: bl)
    from hi have "n div 2 + 1 \<le> 2 ^ bit_length (n div 2)" by simp
    then have "2 * (n div 2) + 2 \<le> 2 * 2 ^ bit_length (n div 2)" by simp
    moreover have "n < 2 * (n div 2) + 2" by presburger
    ultimately have "n < 2 ^ bit_length n" by (simp add: bl)
    with 1 show ?thesis by simp
  qed
qed

lemma rat_of_nat_power_le:
  "(2::nat) ^ k \<le> n \<Longrightarrow> (2::rat) ^ k \<le> of_nat n"
  "n \<le> (2::nat) ^ k \<Longrightarrow> (of_nat n :: rat) \<le> 2 ^ k"
proof -
  have c: "(of_nat ((2::nat) ^ k) :: rat) = 2 ^ k" by simp
  show "(2::rat) ^ k \<le> of_nat n" if "(2::nat) ^ k \<le> n"
    using of_nat_mono [OF that, where 'a = rat] unfolding c .
  show "(of_nat n :: rat) \<le> 2 ^ k" if "n \<le> (2::nat) ^ k"
    using of_nat_mono [OF that, where 'a = rat] unfolding c .
qed

lemma floor_log2_bounds:
  assumes "0 < x"
  shows "2 powi floor_log2 x \<le> x \<and> x < 2 powi (floor_log2 x + 1)"
proof (cases "1 \<le> x")
  case True
  define n where "n = nat \<lfloor>x\<rfloor>"
  from True have fl: "1 \<le> \<lfloor>x\<rfloor>" by (simp add: le_floor_iff)
  then have cast: "(of_nat n :: rat) = of_int \<lfloor>x\<rfloor>" by (simp add: n_def)
  have "of_int \<lfloor>x\<rfloor> \<le> x" "x < of_int \<lfloor>x\<rfloor> + 1" by linarith+
  with fl cast have n: "0 < n" "of_nat n \<le> x" "x < of_nat n + 1"
    by (simp_all add: n_def)
  define b where "b = bit_length n"
  from bit_length_bounds [OF n(1)] have bb: "2 ^ (b - 1) \<le> n" "n < 2 ^ b"
    by (simp_all add: b_def)
  then have b: "0 < b" using n(1) by (cases b) auto
  have e: "floor_log2 x = int (b - 1)"
    using True b by (simp add: floor_log2_def n_def b_def)
  have "(2::rat) ^ (b - 1) \<le> of_nat n"
    using bb(1) by (rule rat_of_nat_power_le)
  from order_trans [OF this n(2)] have lo: "2 powi floor_log2 x \<le> x" by (simp add: e)
  from bb(2) have "n + 1 \<le> 2 ^ b" by simp
  then have "(of_nat (n + 1) :: rat) \<le> 2 ^ b" by (rule rat_of_nat_power_le)
  then have "(of_nat n :: rat) + 1 \<le> 2 ^ b" by (simp only: of_nat_add of_nat_1)
  from less_le_trans [OF n(3) this] have "x < 2 ^ b" .
  moreover have "floor_log2 x + 1 = int b" using e b by simp
  ultimately have "x < 2 powi (floor_log2 x + 1)" by simp
  with lo show ?thesis by simp
next
  case False
  with assms have x: "0 < x" "x < 1" by simp_all
  define z where "z = \<lceil>1 / x\<rceil>"
  define m where "m = nat z"
  from x have big: "1 < 1 / x" by simp
  then have c: "1 < z" unfolding z_def by (simp add: less_ceiling_iff)
  then have m: "2 \<le> m" unfolding m_def by linarith
  from c have cast: "(of_nat m :: rat) = of_int z" unfolding m_def by simp
  have "1 / x \<le> of_int z" "of_int z - 1 < 1 / x" unfolding z_def by linarith+
  then have up: "1 / x \<le> of_nat m" and down: "of_nat m - 1 < 1 / x"
    unfolding cast by simp_all
  define k where "k = m - 1"
  define b where "b = bit_length k"
  from m have k: "0 < k" "m = k + 1" by (simp_all add: k_def)
  from bit_length_bounds [OF k(1)] have bb: "2 ^ (b - 1) \<le> k" "k < 2 ^ b"
    by (simp_all add: b_def)
  then have b: "0 < b" using k(1) by (cases b) auto
  have e: "floor_log2 x = - int b"
    using False by (simp add: floor_log2_def m_def z_def k_def b_def)
  from bb(2) k(2) have "m \<le> 2 ^ b" by simp
  then have "(of_nat m :: rat) \<le> 2 ^ b" by (rule rat_of_nat_power_le)
  from order_trans [OF up this] have "1 / x \<le> 2 ^ b" .
  with x(1) have "1 \<le> 2 ^ b * x" by (simp add: pos_divide_le_eq)
  then have "1 / 2 ^ b \<le> x" by (simp add: pos_divide_le_eq mult.commute)
  then have lo: "2 powi floor_log2 x \<le> x"
    by (simp add: e power_int_minus divide_inverse)
  have "(2::rat) ^ (b - 1) \<le> of_nat k"
    using bb(1) by (rule rat_of_nat_power_le)
  also have "(of_nat k :: rat) = of_nat m - 1" by (simp add: k(2))
  also have "\<dots> < 1 / x" by (rule down)
  finally have "2 ^ (b - 1) * x < 1" using x(1) by (simp add: pos_less_divide_eq)
  then have "x < 1 / 2 ^ (b - 1)" by (simp add: pos_less_divide_eq mult.commute)
  moreover have "floor_log2 x + 1 = - int (b - 1)" using e b by simp
  ultimately have "x < 2 powi (floor_log2 x + 1)"
    by (simp add: power_int_minus divide_inverse)
  with lo show ?thesis by simp
qed

lemma round_half_even_error: "\<bar>of_int (round_half_even x) - x\<bar> \<le> 1 / 2"
proof -
  have "of_int \<lfloor>x\<rfloor> \<le> x" "x < of_int \<lfloor>x\<rfloor> + 1" by linarith+
  then show ?thesis
    by (auto simp: round_half_even_def Let_def)
qed

lemma to_binary64_nearest:
  assumes "x \<noteq> 0"
  shows "\<exists>m. to_binary64 x = of_int m * 2 powi (floor_log2 \<bar>x\<bar> - 52) \<and>
           \<bar>m\<bar> \<le> 2 ^ 53 \<and>
           \<bar>to_binary64 x - x\<bar> \<le> 2 powi (floor_log2 \<bar>x\<bar> - 52) / 2"
proof -
  define u :: rat where "u = 2 powi (floor_log2 \<bar>x\<bar> - 52)"
  define m where "m = round_half_even (x / u)"
  have u: "0 < u" by (simp add: u_def)
  have t: "to_binary64 x = of_int m * u"
    using assms by (simp add: to_binary64_def Let_def u_def m_def)
  have err: "\<bar>of_int m - x / u\<bar> \<le> 1 / 2"
    unfolding m_def by (rule round_half_even_error)
  have "of_int m * u - x = (of_int m - x / u) * u"
    using u by (simp add: field_simps)
  then have "\<bar>to_binary64 x - x\<bar> = \<bar>of_int m - x / u\<bar> * u"
    using u by (simp add: t abs_mult)
  also have "\<dots> \<le> u / 2" using err u by (simp add: mult_right_mono)
  finally have near: "\<bar>to_binary64 x - x\<bar> \<le> u / 2" .
  from assms have ax: "0 < \<bar>x\<bar>" by simp
  from floor_log2_bounds [OF ax] have "\<bar>x\<bar> < 2 powi (floor_log2 \<bar>x\<bar> + 1)" by simp
  also have "\<dots> = 2 ^ 53 * u"
    by (simp add: u_def power_int_add power_int_diff)
  finally have "\<bar>x / u\<bar> < 2 ^ 53" using u by (simp add: pos_divide_less_eq abs_mult)
  with err have "\<bar>(of_int m :: rat)\<bar> < 2 ^ 53 + 1" by linarith
  then have "(of_int \<bar>m\<bar> :: rat) < of_int (2 ^ 53 + 1)" by simp
  then have "\<bar>m\<bar> < 2 ^ 53 + 1" by (simp only: of_int_less_iff)
  then have "\<bar>m\<bar> \<le> 2 ^ 53" by simp
  with t near show ?thesis unfolding u_def by blast
qed

subsection \<open>Decimal text reads back\<close>

lemma int_digits_append:
  "int_digits acc (xs @ ys) =
     (case int_digits acc xs of Inl e \<Rightarrow> Inl e | Inr a \<Rightarrow> int_digits a ys)"
  by (induction xs arbitrary: acc) (auto split: option.splits)

lemma int_digits_nat_str:
  "int_digits acc (nat_str n) = Inr (acc * 10 ^ length (nat_str n) + int n)"
proof (induction n arbitrary: acc rule: nat_str.induct)
  case (1 n)
  show ?case
  proof (cases "n < 10")
    case True
    then show ?thesis
      by (subst (1 2) nat_str.simps) (simp add: decimal_value_low)
  next
    case False
    have last: "decimal_value (48 + n mod 10) = Some (n mod 10)"
      by (simp add: decimal_value_low)
    have "int_digits acc (nat_str (n div 10) @ [48 + n mod 10]) =
        Inr (10 * (acc * 10 ^ length (nat_str (n div 10)) + int (n div 10)) + int (n mod 10))"
      using False by (simp add: int_digits_append "1.IH" last)
    also have "\<dots> = Inr (acc * 10 ^ length (nat_str (n div 10) @ [48 + n mod 10]) + int n)"
    proof -
      have "int n = 10 * int (n div 10) + int (n mod 10)"
        by (simp add: zdiv_int zmod_int)
      then show ?thesis by (simp add: algebra_simps)
    qed
    finally show ?thesis
      using False by (subst (1 2) nat_str.simps) simp
  qed
qed

lemma nat_str_not_empty: "nat_str n \<noteq> []"
  by (subst nat_str.simps) simp

lemma py_int_py_str:
  assumes "py_str n = Inr s" and "0 \<le> n"
  shows "py_int s = Inr n"
proof -
  from assms have s: "s = nat_str (nat n)" and len: "length (nat_str (nat n)) \<le> max_str_digits"
    by (auto simp: py_str_def int_str_def split: if_splits)
  then show ?thesis
    using assms(2) by (simp add: py_int_def nat_str_not_empty int_digits_nat_str)
qed

subsection \<open>Fields of the report\<close>

lemma aggregate_score:
  "lead_quality_score (aggregate self lid m br cat u c f) =
     max 0 (min 100 (fst (feasibility_adjustment f
       (complexity_adjustment c (urgency_adjustment u (budget_adjustment cat (50, [])))))))"
  by (simp add: aggregate_def Let_def)

lemma aggregate_label:
  "lead_quality_label (aggregate self lid m br cat u c f) =
     (let q = lead_quality_score (aggregate self lid m br cat u c f)
      in if q \<ge> high_intent_threshold self then Label_High
         else if q \<ge> medium_intent_threshold self then Label_Medium
         else if q \<ge> low_intent_threshold self then Label_Low
         else Label_Invalid)"
  by (simp add: aggregate_def Let_def)

lemma aggregate_attention:
  "human_attention_required (aggregate self lid m br cat u c f) =
     (lead_quality_label (aggregate self lid m br cat u c f) \<noteq> Label_High \<and>
      lead_quality_label (aggregate self lid m br cat u c f) \<noteq> Label_Medium)"
  by (simp add: aggregate_def Let_def)

lemma aggregate_confidence:
  "confidence_in_recommendation (aggregate self lid m br cat u c f) =
     2 * \<bar>lead_quality_score (aggregate self lid m br cat u c f) - 50\<bar>"
proof -
  define q where "q = lead_quality_score (aggregate self lid m br cat u c f)"
  have range: "0 \<le> q" "q \<le> 100" by (simp_all add: q_def aggregate_score)
  have "confidence_in_recommendation (aggregate self lid m br cat u c f) =
          py_round (float_mul (int_truediv \<bar>q - 50\<bar> 50) 100)"
    by (simp add: q_def aggregate_def Let_def)
  also have "\<dots> = 2 * \<bar>q - 50\<bar>"
    using range by (intro confidence_of_distance) auto
  finally show ?thesis by (simp add: q_def)
qed

lemma aggregate_range:
  "0 \<le> lead_quality_score (aggregate self lid m br cat u c f)"
  "lead_quality_score (aggregate self lid m br cat u c f) \<le> 100"
  by (simp_all add: aggregate_score)

lemma qualify_lead_Inr:
  assumes "qualify_lead self ld = Inr r"
  shows "\<exists>range_text cat level.
     parse_budget (py_or (budget ld) (budget_range ld)) = Inr (range_text, cat) \<and>
     determine_urgency (urgency ld) = Inr level \<and>
     r = aggregate self (or_default (lead.lead_id ld) [])
           (or_default (py_or (mode_preference ld) (mode ld)) (ascii ''Unknown''))
           range_text cat level
           (assess_subject_complexity (Some (or_default (subjects ld) [])))
           (compute_location_feasibility (location ld)
              (Some (or_default (py_or (mode_preference ld) (mode ld)) (ascii ''Unknown''))))"
  using assms by (auto simp: qualify_lead_def Let_def split: sum.splits prod.splits)

lemma qualify_lead_returns:
  assumes "parse_budget (py_or (budget ld) (budget_range ld)) = Inr (range_text, cat)"
    and "determine_urgency (urgency ld) = Inr level"
  shows "qualify_lead self ld =
     Inr (aggregate self (or_default (lead.lead_id ld) [])
           (or_default (py_or (mode_preference ld) (mode ld)) (ascii ''Unknown''))
           range_text cat level
           (assess_subject_complexity (Some (or_default (subjects ld) [])))
           (compute_location_feasibility (location ld)
              (Some (or_default (py_or (mode_preference ld) (mode ld)) (ascii ''Unknown'')))))"
  using assms by (simp add: qualify_lead_def Let_def)

lemma qualify_lead_raises:
  assumes "parse_budget (py_or (budget ld) (budget_range ld)) = Inl e \<or>
      determine_urgency (urgency ld) = Inl e"
  shows "qualify_lead self ld = Inl ValueError"
  using assms
  by (auto simp: qualify_lead_def Let_def error_is_ValueError split: sum.splits prod.splits)

text \<open>
  A report is returned whenever the budget text and the urgency text are at most
  \<open>max_str_digits\<close> characters long, since no number in them can then be longer.
\<close>

lemma qualify_lead_short:
  assumes "\<And>b. py_or (budget ld) (budget_range ld) = Some b \<Longrightarrow> length b \<le> max_str_digits"
    and "\<And>u. urgency ld = Some u \<Longrightarrow> length u \<le> max_str_digits"
  shows "\<exists>r. qualify_lead self ld = Inr r"
proof -
  have "\<exists>range_text cat.
      parse_budget (py_or (budget ld) (budget_range ld)) = Inr (range_text, cat)"
  proof (cases "py_or (budget ld) (budget_range ld)")
    case None
    then show ?thesis by (simp add: parse_budget_def)
  next
    case (Some b)
    with assms(1) parse_budget_short [of b] show ?thesis by simp
  qed
  moreover have "\<exists>level. determine_urgency (urgency ld) = Inr level"
  proof (cases "urgency ld")
    case None
    then show ?thesis by (simp add: determine_urgency_def)
  next
    case (Some u)
    with assms(2) determine_urgency_short [of u] show ?thesis by simp
  qed
  ultimately show ?thesis using qualify_lead_returns by blast
qed

lemma qualify_lead_report:
  assumes "\<And>lid m br cat u c f. P (aggregate self lid m br cat u c f)"
    and "qualify_lead self ld = Inr r"
  shows "P r"
  using qualify_lead_Inr [OF assms(2)] assms(1) by auto

lemma aggregate_inputs:
  "urgency_level (aggregate self lid m br cat u c f) = u"
  "subject_complexity (aggregate self lid m br cat u c f) = c"
  "location_feasibility_score (aggregate self lid m br cat u c f) = f"
  "budget_range_inferred (aggregate self lid m br cat u c f) = br"
  "preferred_mode (aggregate self lid m br cat u c f) = m"
  "report.lead_id (aggregate self lid m br cat u c f) = lid"
  by (simp_all add: aggregate_def Let_def)

lemma aggregate_summary:
  "reasoning_summary (aggregate self lid m br cat u c f) =
     (let lines = snd (feasibility_adjustment f
        (complexity_adjustment c (urgency_adjustment u (budget_adjustment cat (50, [])))))
      in if join_lines lines = [] then ascii ''Lead evaluated with default heuristics.''
         else join_lines lines)"
  by (simp add: aggregate_def Let_def)

lemma feasibility_values: "compute_location_feasibility loc md \<in> {50, 60, 80, 100}"
  by (simp add: compute_location_feasibility_def Let_def split: option.splits)

subsection \<open>Feasibility, label, score and attention\<close>

lemma online_with_location:
  assumes "loc \<noteq> []" and "lower m = ascii ''online''"
  shows "compute_location_feasibility (Some loc) (Some m) = 100"
proof -
  from assms(2) have "m \<noteq> []" by (auto simp: lower_def ascii_def)
  with assms show ?thesis by (simp add: compute_location_feasibility_def falsy_def)
qed

text \<open>
  C5.  The claim is that a mode equal to \<open>online\<close>, letter case aside, gives the
  feasibility score 100 whatever the location, also when there is none.  The function
  does so for every location that is not empty (\<open>online_with_location\<close>).  Without a
  location, or with the empty one, it returns 50: the location guard comes before the mode
  test.  The same 50 reaches the report of a lead that only says \<open>online\<close>.
\<close>

theorem online_without_location_scores_50:
  "compute_location_feasibility None (Some (ascii ''online'')) = 50 \<and>
   compute_location_feasibility (Some []) (Some (ascii ''online'')) = 50 \<and>
   (\<exists>r. qualify_lead default_agent
           \<lparr>lead.lead_id = None, mode_preference = None, mode = Some (ascii ''online''),
            subjects = None, budget = None, budget_range = None, urgency = None,
            location = None\<rparr> = Inr r \<and>
        preferred_mode r = ascii ''online'' \<and> location_feasibility_score r = 50)"
  by (simp add: compute_location_feasibility_def qualify_lead_def parse_budget_def
      determine_urgency_def or_default_def py_or_def falsy_def aggregate_inputs ascii_def)

lemmas text_eval =
  ascii_def lower_def lower_char_def falsy_def py_or_def or_default_def rupee_def en_dash_def
  nb_hyphen_def

lemmas digit_eval = is_decimal_def decimal_value_def decimal_zeros_def

lemmas search_eval =
  match_here_def text_eval is_decimal_def decimal_value_low is_space_def ci_char_def

text \<open>
  C2.  Under the default thresholds the label of every report returned and its score
  determine each other: High exactly from 80, Medium exactly in 60..79, Low exactly in
  40..59, Invalid exactly below 40.
\<close>

theorem label_partitions_score:
  assumes "qualify_lead default_agent ld = Inr r"
  shows "(lead_quality_label r = Label_High \<longleftrightarrow> lead_quality_score r \<ge> 80) \<and>
     (lead_quality_label r = Label_Medium \<longleftrightarrow>
        60 \<le> lead_quality_score r \<and> lead_quality_score r < 80) \<and>
     (lead_quality_label r = Label_Low \<longleftrightarrow>
        40 \<le> lead_quality_score r \<and> lead_quality_score r < 60) \<and>
     (lead_quality_label r = Label_Invalid \<longleftrightarrow> lead_quality_score r < 40)"
proof -
  from qualify_lead_Inr [OF assms] obtain lid m br cat u c f
    where r: "r = aggregate default_agent lid m br cat u c f" by blast
  show ?thesis
    unfolding r by (simp add: aggregate_label default_agent_def Let_def)
qed

theorem label_partitions_score_witness:
  "\<exists>r. qualify_lead default_agent
          \<lparr>lead.lead_id = None, mode_preference = None, mode = None, subjects = None,
           budget = None, budget_range = None, urgency = None, location = None\<rparr> = Inr r \<and>
     lead_quality_score r = 45 \<and>
     (lead_quality_label r = Label_High \<longleftrightarrow> lead_quality_score r \<ge> 80) \<and>
     (lead_quality_label r = Label_Medium \<longleftrightarrow>
        60 \<le> lead_quality_score r \<and> lead_quality_score r < 80) \<and>
     (lead_quality_label r = Label_Low \<longleftrightarrow>
        40 \<le> lead_quality_score r \<and> lead_quality_score r < 60) \<and>
     (lead_quality_label r = Label_Invalid \<longleftrightarrow> lead_quality_score r < 40)"
proof -
  let ?ld = "\<lparr>lead.lead_id = None, mode_preference = None, mode = None, subjects = None,
           budget = None, budget_range = None, urgency = None, location = None\<rparr>"
  let ?r = "aggregate default_agent [] (ascii ''Unknown'') (ascii ''Unknown'') Budget_Unknown
      Long_Term Complexity_Unknown 50"
  have run: "qualify_lead default_agent ?ld = Inr ?r"
    by (simp add: qualify_lead_def parse_budget_def determine_urgency_def or_default_def
        py_or_def falsy_def assess_subject_complexity_def compute_location_feasibility_def)
  have score: "lead_quality_score ?r = 45"
    by (simp add: aggregate_score feasibility_adjustment_def complexity_adjustment_def
        urgency_adjustment_def budget_adjustment_def)
  from label_partitions_score [OF run] run score show ?thesis by blast
qed

text \<open>
  C3.  Every report returned has a score that is an integer from 0 to 100, and its
  confidence, computed in binary64 and rounded, is \<open>round(abs(score - 50) / 50 * 100)\<close>
  taken exactly, an integer from 0 to 100.
\<close>

theorem score_and_confidence_range:
  assumes "qualify_lead self ld = Inr r"
  shows "0 \<le> lead_quality_score r \<and> lead_quality_score r \<le> 100 \<and>
     confidence_in_recommendation r =
       round_half_even (of_int \<bar>lead_quality_score r - 50\<bar> / 50 * 100) \<and>
     0 \<le> confidence_in_recommendation r \<and> confidence_in_recommendation r \<le> 100"
proof -
  from qualify_lead_Inr [OF assms] obtain lid m br cat u c f
    where r: "r = aggregate self lid m br cat u c f" by blast
  have range: "0 \<le> lead_quality_score r" "lead_quality_score r \<le> 100"
    unfolding r by (rule aggregate_range)+
  have conf: "confidence_in_recommendation r = 2 * \<bar>lead_quality_score r - 50\<bar>"
    unfolding r by (rule aggregate_confidence)
  have exact: "round_half_even (of_int \<bar>lead_quality_score r - 50\<bar> / 50 * 100) =
      2 * \<bar>lead_quality_score r - 50\<bar>"
    by (rule exact_confidence)
  from range have "0 \<le> 2 * \<bar>lead_quality_score r - 50\<bar>"
    "2 * \<bar>lead_quality_score r - 50\<bar> \<le> 100" by auto
  with range conf exact show ?thesis by simp
qed

theorem score_and_confidence_range_witness:
  "\<exists>r. qualify_lead default_agent
          \<lparr>lead.lead_id = Some (ascii ''L7''), mode_preference = None, mode = None,
           subjects = None, budget = None, budget_range = None,
           urgency = Some (ascii ''in 5 days''), location = None\<rparr> = Inr r \<and>
     lead_quality_score r = 55 \<and> confidence_in_recommendation r = 10 \<and>
     0 \<le> lead_quality_score r \<and> lead_quality_score r \<le> 100 \<and>
     confidence_in_recommendation r =
       round_half_even (of_int \<bar>lead_quality_score r - 50\<bar> / 50 * 100) \<and>
     0 \<le> confidence_in_recommendation r \<and> confidence_in_recommendation r \<le> 100"
proof -
  let ?ld = "\<lparr>lead.lead_id = Some (ascii ''L7''), mode_preference = None, mode = None,
           subjects = None, budget = None, budget_range = None,
           urgency = Some (ascii ''in 5 days''), location = None\<rparr>"
  let ?r = "aggregate default_agent (ascii ''L7'') (ascii ''Unknown'') (ascii ''Unknown'')
      Budget_Unknown Short_Term Complexity_Unknown 50"
  have u: "determine_urgency (Some (ascii ''in 5 days'')) = Inr Short_Term"
    by (simp add: determine_urgency_def search_eval py_int_def max_str_digits_def)
  have lid: "or_default (Some (ascii ''L7'')) [] = ascii ''L7''"
    by (simp add: or_default_def ascii_def)
  have run: "qualify_lead default_agent ?ld = Inr ?r"
    by (simp add: qualify_lead_def parse_budget_def u lid py_or_def falsy_def
        assess_subject_complexity_def compute_location_feasibility_def)
      (simp add: or_default_def)
  have score: "lead_quality_score ?r = 55"
    by (simp add: aggregate_score feasibility_adjustment_def complexity_adjustment_def
        urgency_adjustment_def budget_adjustment_def)
  have conf: "confidence_in_recommendation ?r = 10"
    by (simp add: aggregate_confidence score)
  from score_and_confidence_range [OF run] run score conf show ?thesis by blast
qed

text \<open>
  C4.  In every report returned, \<open>human_attention_required\<close> is true exactly when the
  label is Low or Invalid, and false exactly when it is High or Medium, whatever the
  thresholds.
\<close>

theorem attention_iff_low_or_invalid:
  assumes "qualify_lead self ld = Inr r"
  shows "(human_attention_required r \<longleftrightarrow>
        lead_quality_label r = Label_Low \<or> lead_quality_label r = Label_Invalid) \<and>
     (\<not> human_attention_required r \<longleftrightarrow>
        lead_quality_label r = Label_High \<or> lead_quality_label r = Label_Medium)"
proof -
  from qualify_lead_Inr [OF assms] obtain lid m br cat u c f
    where r: "r = aggregate self lid m br cat u c f" by blast
  show ?thesis
    unfolding r
    by (cases "lead_quality_label (aggregate self lid m br cat u c f)")
       (simp_all add: aggregate_attention)
qed

theorem attention_iff_low_or_invalid_witness:
  "\<exists>r. qualify_lead default_agent
          \<lparr>lead.lead_id = None, mode_preference = None, mode = None,
           subjects = Some [ascii ''Physics''], budget = None, budget_range = None,
           urgency = None, location = None\<rparr> = Inr r \<and>
     lead_quality_label r = Label_Low \<and> human_attention_required r \<and>
     (human_attention_required r \<longleftrightarrow>
        lead_quality_label r = Label_Low \<or> lead_quality_label r = Label_Invalid) \<and>
     (\<not> human_attention_required r \<longleftrightarrow>
        lead_quality_label r = Label_High \<or> lead_quality_label r = Label_Medium)"
proof -
  let ?ld = "\<lparr>lead.lead_id = None, mode_preference = None, mode = None,
           subjects = Some [ascii ''Physics''], budget = None, budget_range = None,
           urgency = None, location = None\<rparr>"
  let ?r = "aggregate default_agent [] (ascii ''Unknown'') (ascii ''Unknown'') Budget_Unknown
      Long_Term Complexity_Medium 50"
  have c: "assess_subject_complexity (Some [ascii ''Physics'']) = Complexity_Medium"
    by (simp add: assess_subject_complexity_def high_complexity_keywords_def
        medium_complexity_keywords_def text_eval)
  have subs: "or_default (Some [ascii ''Physics'']) [] = [ascii ''Physics'']"
    by (simp add: or_default_def)
  have run: "qualify_lead default_agent ?ld = Inr ?r"
    by (simp add: qualify_lead_def parse_budget_def determine_urgency_def subs c py_or_def
        falsy_def compute_location_feasibility_def)
      (simp add: or_default_def)
  have score: "lead_quality_score ?r = 50"
    by (simp add: aggregate_score feasibility_adjustment_def complexity_adjustment_def
        urgency_adjustment_def budget_adjustment_def)
  have label: "lead_quality_label ?r = Label_Low"
    unfolding aggregate_label Let_def score by (simp add: default_agent_def)
  have att: "human_attention_required ?r"
    by (simp add: aggregate_attention label)
  from attention_iff_low_or_invalid [OF run] run label att show ?thesis by blast
qed

text \<open>
  C8.  The feasibility block of the aggregator adds 10 and appends the sentence on the
  precise location when the feasibility score is at least 80, subtracts 5 and appends the
  sentence on the generic location when it is at most 60, and leaves score and sentences
  as they are strictly between; 60 is penalised and 80 rewarded.  The score of the report
  is the clamped outcome of this block.
\<close>

theorem feasibility_adjustment_branches:
  "(80 \<le> f \<longrightarrow>
      feasibility_adjustment f (q, ls) =
        (q + 10, ls @ [ascii ''Precise location makes home tutoring feasible.''])) \<and>
   (f \<le> 60 \<longrightarrow>
      feasibility_adjustment f (q, ls) =
        (q - 5, ls @ [ascii ''Generic location lowers match confidence.''])) \<and>
   (60 < f \<and> f < 80 \<longrightarrow> feasibility_adjustment f (q, ls) = (q, ls)) \<and>
   feasibility_adjustment 60 (q, ls) =
     (q - 5, ls @ [ascii ''Generic location lowers match confidence.'']) \<and>
   feasibility_adjustment 80 (q, ls) =
     (q + 10, ls @ [ascii ''Precise location makes home tutoring feasible.'']) \<and>
   lead_quality_score (aggregate self lid m br cat u c f) =
     max 0 (min 100 (fst (feasibility_adjustment f
       (complexity_adjustment c (urgency_adjustment u (budget_adjustment cat (50, [])))))))"
  by (simp add: feasibility_adjustment_def aggregate_score)

theorem feasibility_adjustment_branches_witness:
  "feasibility_adjustment 95 (70, []) =
     (80, [ascii ''Precise location makes home tutoring feasible.'']) \<and>
   feasibility_adjustment 50 (70, []) =
     (65, [ascii ''Generic location lowers match confidence.'']) \<and>
   feasibility_adjustment 70 (70, []) = (70, [])"
  using feasibility_adjustment_branches [of 95 70 "[]"]
    feasibility_adjustment_branches [of 50 70 "[]"]
    feasibility_adjustment_branches [of 70 70 "[]"]
  by simp

subsection \<open>Values of the feasibility score, and the scenario\<close>

text \<open>
  C10.  The feasibility score is always one of 50, 60, 80 and 100, and each of the four
  occurs.  So the score of a report never lies strictly between 60 and 80, and the quality
  score of every report returned is the clamped sum of the earlier blocks plus 10
  (feasibility at least 80) or minus 5 (feasibility at most 60).
\<close>

theorem feasibility_never_neutral:
  "compute_location_feasibility loc md \<in> {50, 60, 80, 100} \<and>
   compute_location_feasibility None None = 50 \<and>
   compute_location_feasibility (Some (ascii ''Pune city'')) (Some (ascii ''offline'')) = 60 \<and>
   compute_location_feasibility (Some (ascii ''Sector 21'')) (Some (ascii ''offline'')) = 80 \<and>
   compute_location_feasibility (Some (ascii ''Pune'')) (Some (ascii ''Online'')) = 100 \<and>
   (qualify_lead self ld = Inr r \<longrightarrow>
      (\<exists>range_text cat.
         parse_budget (py_or (budget ld) (budget_range ld)) = Inr (range_text, cat) \<and>
         location_feasibility_score r \<in> {50, 60, 80, 100} \<and>
         (80 \<le> location_feasibility_score r \<and>
            lead_quality_score r =
              max 0 (min 100 (fst (complexity_adjustment (subject_complexity r)
                (urgency_adjustment (urgency_level r) (budget_adjustment cat (50, [])))) + 10))
          \<or>
          location_feasibility_score r \<le> 60 \<and>
            lead_quality_score r =
              max 0 (min 100 (fst (complexity_adjustment (subject_complexity r)
                (urgency_adjustment (urgency_level r) (budget_adjustment cat (50, [])))) - 5)))))"
proof -
  have range: "compute_location_feasibility l m \<in> {50, 60, 80, 100}" for l m
    by (rule feasibility_values)
  have v50: "compute_location_feasibility None None = 50"
    by (simp add: compute_location_feasibility_def)
  have v60: "compute_location_feasibility (Some (ascii ''Pune city'')) (Some (ascii ''offline'')) = 60"
    by (simp add: compute_location_feasibility_def text_eval)
  have v80: "compute_location_feasibility (Some (ascii ''Sector 21'')) (Some (ascii ''offline'')) = 80"
    by (simp add: compute_location_feasibility_def text_eval)
  have v100: "compute_location_feasibility (Some (ascii ''Pune'')) (Some (ascii ''Online'')) = 100"
    by (simp add: compute_location_feasibility_def text_eval)
  have report: "\<exists>range_text cat.
         parse_budget (py_or (budget ld) (budget_range ld)) = Inr (range_text, cat) \<and>
         location_feasibility_score r \<in> {50, 60, 80, 100} \<and>
         (80 \<le> location_feasibility_score r \<and>
            lead_quality_score r =
              max 0 (min 100 (fst (complexity_adjustment (subject_complexity r)
                (urgency_adjustment (urgency_level r) (budget_adjustment cat (50, [])))) + 10))
          \<or>
          location_feasibility_score r \<le> 60 \<and>
            lead_quality_score r =
              max 0 (min 100 (fst (complexity_adjustment (subject_complexity r)
                (urgency_adjustment (urgency_level r) (budget_adjustment cat (50, [])))) - 5)))"
    if ret: "qualify_lead self ld = Inr r"
  proof -
    from qualify_lead_Inr [OF ret] obtain range_text cat level lid m c where
      b: "parse_budget (py_or (budget ld) (budget_range ld)) = Inr (range_text, cat)" and
      r: "r = aggregate self lid m range_text cat level c
                (compute_location_feasibility (location ld) (Some m))"
      by blast
    let ?f = "compute_location_feasibility (location ld) (Some m)"
    obtain q ls where acc:
      "complexity_adjustment c (urgency_adjustment level (budget_adjustment cat (50, []))) = (q, ls)"
      by (cases "complexity_adjustment c (urgency_adjustment level (budget_adjustment cat (50, [])))")
    have f: "?f \<in> {50, 60, 80, 100}" by (rule range)
    have "80 \<le> ?f \<and> lead_quality_score r = max 0 (min 100 (q + 10)) \<or>
          ?f \<le> 60 \<and> lead_quality_score r = max 0 (min 100 (q - 5))"
      using f unfolding r by (auto simp: aggregate_score acc feasibility_adjustment_def)
    then have "location_feasibility_score r \<in> {50, 60, 80, 100} \<and>
        (80 \<le> location_feasibility_score r \<and>
           lead_quality_score r =
             max 0 (min 100 (fst (complexity_adjustment (subject_complexity r)
               (urgency_adjustment (urgency_level r) (budget_adjustment cat (50, [])))) + 10))
         \<or>
         location_feasibility_score r \<le> 60 \<and>
           lead_quality_score r =
             max 0 (min 100 (fst (complexity_adjustment (subject_complexity r)
               (urgency_adjustment (urgency_level r) (budget_adjustment cat (50, [])))) - 5)))"
      using f unfolding r by (simp add: aggregate_inputs acc)
    with b show ?thesis by blast
  qed
  from range v50 v60 v80 v100 report show ?thesis by blast
qed

theorem feasibility_never_neutral_witness:
  "\<exists>r. qualify_lead default_agent
          \<lparr>lead.lead_id = None, mode_preference = None, mode = None, subjects = None,
           budget = None, budget_range = None, urgency = None,
           location = Some (ascii ''Pune city'')\<rparr> = Inr r \<and>
     location_feasibility_score r = 60 \<and>
     lead_quality_score r =
       max 0 (min 100 (fst (complexity_adjustment (subject_complexity r)
         (urgency_adjustment (urgency_level r) (budget_adjustment Budget_Unknown (50, [])))) - 5))"
proof -
  let ?ld = "\<lparr>lead.lead_id = None, mode_preference = None, mode = None, subjects = None,
           budget = None, budget_range = None, urgency = None,
           location = Some (ascii ''Pune city'')\<rparr>"
  let ?r = "aggregate default_agent [] (ascii ''Unknown'') (ascii ''Unknown'') Budget_Unknown
      Long_Term Complexity_Unknown 60"
  have f: "compute_location_feasibility (Some (ascii ''Pune city'')) (Some (ascii ''Unknown'')) = 60"
    by (simp add: compute_location_feasibility_def text_eval)
  have m: "or_default (py_or None None) (ascii ''Unknown'') = ascii ''Unknown''"
    by (simp add: or_default_def py_or_def falsy_def)
  have b: "parse_budget (py_or None None) = Inr (ascii ''Unknown'', Budget_Unknown)"
    by (simp add: parse_budget_def py_or_def falsy_def)
  have run: "qualify_lead default_agent ?ld = Inr ?r"
    unfolding qualify_lead_def Let_def lead.simps m b
    by (simp add: determine_urgency_def f assess_subject_complexity_def or_default_def)
  have "qualify_lead default_agent ?ld = Inr ?r \<longrightarrow>
      (\<exists>range_text cat.
         parse_budget (py_or (budget ?ld) (budget_range ?ld)) = Inr (range_text, cat) \<and>
         location_feasibility_score ?r \<in> {50, 60, 80, 100} \<and>
         (80 \<le> location_feasibility_score ?r \<and>
            lead_quality_score ?r =
              max 0 (min 100 (fst (complexity_adjustment (subject_complexity ?r)
                (urgency_adjustment (urgency_level ?r) (budget_adjustment cat (50, [])))) + 10))
          \<or>
          location_feasibility_score ?r \<le> 60 \<and>
            lead_quality_score ?r =
              max 0 (min 100 (fst (complexity_adjustment (subject_complexity ?r)
                (urgency_adjustment (urgency_level ?r) (budget_adjustment cat (50, [])))) - 5))))"
    using feasibility_never_neutral [of None None default_agent ?ld ?r]
    by (elim conjE) assumption
  with run obtain range_text cat where
    pb: "parse_budget (py_or (budget ?ld) (budget_range ?ld)) = Inr (range_text, cat)" and
    adj: "80 \<le> location_feasibility_score ?r \<and>
            lead_quality_score ?r =
              max 0 (min 100 (fst (complexity_adjustment (subject_complexity ?r)
                (urgency_adjustment (urgency_level ?r) (budget_adjustment cat (50, [])))) + 10))
          \<or>
          location_feasibility_score ?r \<le> 60 \<and>
            lead_quality_score ?r =
              max 0 (min 100 (fst (complexity_adjustment (subject_complexity ?r)
                (urgency_adjustment (urgency_level ?r) (budget_adjustment cat (50, [])))) - 5))"
    by blast
  from pb have cat: "cat = Budget_Unknown" by (simp add: b)
  have lfs: "location_feasibility_score ?r = 60" by (simp add: aggregate_inputs)
  from adj have "lead_quality_score ?r =
       max 0 (min 100 (fst (complexity_adjustment (subject_complexity ?r)
         (urgency_adjustment (urgency_level ?r) (budget_adjustment Budget_Unknown (50, [])))) - 5))"
    unfolding cat lfs by simp
  with run lfs show ?thesis by blast
qed

lemma scenario_budget:
  "parse_budget (Some (rupee # ascii ''10000'')) = Inr (rupee # ascii ''10000'', Budget_High)"
  by (simp add: parse_budget_def text_eval digit_eval py_int_def max_str_digits_def
      budget_class_def format_range_def py_str_def int_str_def nat_str.simps)

lemma scenario_urgency: "determine_urgency (Some (ascii ''within 2 days'')) = Inr Immediate"
  by (simp add: determine_urgency_def search_eval py_int_def max_str_digits_def)

lemma scenario_complexity: "assess_subject_complexity (Some [ascii ''JEE'']) = Complexity_High"
  by (simp add: assess_subject_complexity_def high_complexity_keywords_def text_eval)

lemma scenario_feasibility:
  "compute_location_feasibility (Some (ascii ''Sector 5'')) (Some (ascii ''offline'')) = 80"
  by (simp add: compute_location_feasibility_def text_eval)

text \<open>
  C1.  For the lead with id L1, budget of 10000 rupees (written with the rupee sign),
  urgency \<open>within 2 days\<close>, subject JEE, location \<open>Sector 5\<close> and mode
  \<open>offline\<close>, the budget is High, and the report has urgency Immediate, complexity High
  and feasibility 80; its blocks add up to 115, and it has quality score 100, label
  \<open>High\<close>, intent level \<open>High Intent\<close>, next agent \<open>Tutor Matching Agent\<close> and
  confidence 100.
\<close>

theorem scenario_L1:
  "\<exists>r. qualify_lead default_agent
          \<lparr>lead.lead_id = Some (ascii ''L1''), mode_preference = None,
           mode = Some (ascii ''offline''), subjects = Some [ascii ''JEE''],
           budget = Some (rupee # ascii ''10000''), budget_range = None,
           urgency = Some (ascii ''within 2 days''),
           location = Some (ascii ''Sector 5'')\<rparr> = Inr r \<and>
     parse_budget (Some (rupee # ascii ''10000'')) = Inr (rupee # ascii ''10000'', Budget_High) \<and>
     budget_range_inferred r = rupee # ascii ''10000'' \<and>
     urgency_level r = Immediate \<and>
     subject_complexity r = Complexity_High \<and>
     location_feasibility_score r = 80 \<and>
     memory_tags r =
       [ascii ''budget:high'', ascii ''urgency:immediate'', ascii ''complexity:high'',
        ascii ''intent:high-intent''] \<and>
     fst (feasibility_adjustment (location_feasibility_score r)
       (complexity_adjustment (subject_complexity r)
         (urgency_adjustment (urgency_level r) (budget_adjustment Budget_High (50, []))))) = 115 \<and>
     lead_quality_score r = 100 \<and>
     lead_quality_label r = Label_High \<and>
     quality_label_str (lead_quality_label r) = ascii ''High'' \<and>
     intent_str (intent_level r) = ascii ''High Intent'' \<and>
     next_agent_str (recommended_next_agent r) = ascii ''Tutor Matching Agent'' \<and>
     confidence_in_recommendation r = 100"
proof -
  let ?r = "aggregate default_agent (ascii ''L1'') (ascii ''offline'') (rupee # ascii ''10000'')
      Budget_High Immediate Complexity_High 80"
  have inputs:
    "or_default (py_or None (Some (ascii ''offline''))) (ascii ''Unknown'') = ascii ''offline''"
    "or_default (Some (ascii ''L1'')) [] = ascii ''L1''"
    "or_default (Some [ascii ''JEE'']) [] = [ascii ''JEE'']"
    "py_or (Some (rupee # ascii ''10000'')) None = Some (rupee # ascii ''10000'')"
    by (simp_all add: text_eval)
  have run: "qualify_lead default_agent
          \<lparr>lead.lead_id = Some (ascii ''L1''), mode_preference = None,
           mode = Some (ascii ''offline''), subjects = Some [ascii ''JEE''],
           budget = Some (rupee # ascii ''10000''), budget_range = None,
           urgency = Some (ascii ''within 2 days''),
           location = Some (ascii ''Sector 5'')\<rparr> = Inr ?r"
    unfolding qualify_lead_def Let_def lead.simps inputs
    by (simp add: scenario_budget scenario_urgency scenario_complexity scenario_feasibility)
  have given: "budget_range_inferred ?r = rupee # ascii ''10000''"
    "urgency_level ?r = Immediate" "subject_complexity ?r = Complexity_High"
    "location_feasibility_score ?r = 80"
    by (simp_all add: aggregate_inputs)
  have raw: "fst (feasibility_adjustment 80 (complexity_adjustment Complexity_High
       (urgency_adjustment Immediate (budget_adjustment Budget_High (50, []))))) = 115"
    by (simp add: feasibility_adjustment_def complexity_adjustment_def urgency_adjustment_def
        budget_adjustment_def)
  have score: "lead_quality_score ?r = 100"
    by (simp add: aggregate_score raw)
  have label: "lead_quality_label ?r = Label_High"
    unfolding aggregate_label Let_def score by (simp add: default_agent_def)
  have intent: "intent_level ?r = High_Intent"
    using score by (simp add: aggregate_def Let_def default_agent_def)
  have tags: "memory_tags ?r =
       [ascii ''budget:high'', ascii ''urgency:immediate'', ascii ''complexity:high'',
        ascii ''intent:high-intent'']"
  proof -
    have "memory_tags ?r =
       [ascii ''budget:'' @ lower (budget_category_str Budget_High),
        ascii ''urgency:'' @ lower (urgency_str Immediate),
        ascii ''complexity:'' @ lower (complexity_str Complexity_High),
        ascii ''intent:'' @ replace_space (lower (intent_str (intent_level ?r)))]"
      by (simp add: aggregate_def Let_def)
    then show ?thesis
      unfolding intent by (simp add: text_eval replace_space_def)
  qed
  have agent: "recommended_next_agent ?r = Tutor_Matching_Agent"
    using score by (simp add: aggregate_def Let_def default_agent_def)
  have conf: "confidence_in_recommendation ?r = 100"
    by (simp add: aggregate_confidence score)
  show ?thesis
    unfolding run using scenario_budget given raw tags score label intent agent conf by simp
qed

subsection \<open>Subject scan\<close>

lemma keyword_hit_iff:
  "keyword_hit sub ks \<longleftrightarrow> (\<exists>kw\<in>set ks. contains (lower sub) (lower kw))"
  by (induction ks) auto

lemma subject_hit_iff:
  "subject_hit ks subs \<longleftrightarrow>
     (\<exists>sub\<in>set subs. \<exists>kw\<in>set ks. contains (lower sub) (lower kw))"
  by (induction subs) (auto simp: keyword_hit_iff)

lemma subject_hit_keyword_order:
  "set ks = set ks' \<Longrightarrow> subject_hit ks subs = subject_hit ks' subs"
  by (simp add: subject_hit_iff)

text \<open>
  On ASCII text \<open>lower\<close> maps each capital to its small letter and nothing else, so a
  lowered subject contains a lowered keyword exactly when the subject mentions the keyword.
\<close>

lemma lower_ascii:
  "list_all (\<lambda>c. c < 128) s \<Longrightarrow>
     lower s = map (\<lambda>c. if 65 \<le> c \<and> c \<le> 90 then c + 32 else c) s"
  by (induction s) (auto simp: lower_def lower_char_def)

lemma same_letter_iff:
  "a < 128 \<Longrightarrow> b < 128 \<Longrightarrow>
     (if 65 \<le> a \<and> a \<le> 90 then a + 32 else a) = (if 65 \<le> b \<and> b \<le> 90 then b + 32 else b)
       \<longleftrightarrow> same_letter a b"
  by (auto simp: same_letter_def)

lemma contains_lower_ascii:
  assumes sub: "list_all (\<lambda>c. c < 128) sub" and kw: "list_all (\<lambda>c. c < 128) kw"
  shows "contains (lower sub) (lower kw) \<longleftrightarrow> mentions sub kw"
proof -
  let ?f = "\<lambda>c :: nat. if 65 \<le> c \<and> c \<le> 90 then c + 32 else c"
  have folded: "map ?f w = map ?f kw \<longleftrightarrow> list_all2 same_letter w kw"
    if w: "set w \<subseteq> set sub" for w
  proof -
    have lt: "a < 128" "b < 128" if "a \<in> set w" "b \<in> set kw" for a b
      using that w sub kw by (auto simp: list_all_iff)
    have "map ?f w = map ?f kw \<longleftrightarrow> list_all2 (\<lambda>a b. ?f a = ?f b) w kw"
      by (simp add: list_all2_eq [of "map ?f w"] list_all2_map1 list_all2_map2)
    also have "\<dots> \<longleftrightarrow> list_all2 same_letter w kw"
    proof
      assume "list_all2 (\<lambda>a b. ?f a = ?f b) w kw"
      then show "list_all2 same_letter w kw"
        by (rule list.rel_mono_strong) (use lt same_letter_iff in blast)
    next
      assume "list_all2 same_letter w kw"
      then show "list_all2 (\<lambda>a b. ?f a = ?f b) w kw"
        by (rule list.rel_mono_strong) (use lt same_letter_iff in blast)
    qed
    finally show ?thesis .
  qed
  have "contains (lower sub) (lower kw) \<longleftrightarrow> (\<exists>p r. map ?f sub = p @ map ?f kw @ r)"
    by (simp add: contains_iff lower_ascii [OF sub] lower_ascii [OF kw])
  also have "\<dots> \<longleftrightarrow> (\<exists>p w r. sub = p @ w @ r \<and> map ?f w = map ?f kw)"
  proof
    assume "\<exists>p r. map ?f sub = p @ map ?f kw @ r"
    then obtain p r where "map ?f sub = p @ map ?f kw @ r" by blast
    then have "\<exists>us vs. sub = us @ vs \<and> p = map ?f us \<and> map ?f kw @ r = map ?f vs"
      by (simp only: map_eq_append_conv)
    then obtain p' t where s1: "sub = p' @ t" and t: "map ?f kw @ r = map ?f t" by blast
    from t have "\<exists>us vs. t = us @ vs \<and> map ?f kw = map ?f us \<and> r = map ?f vs"
      by (simp only: append_eq_map_conv)
    then obtain w r' where "t = w @ r'" "map ?f w = map ?f kw" by metis
    with s1 show "\<exists>p w r. sub = p @ w @ r \<and> map ?f w = map ?f kw" by blast
  next
    assume "\<exists>p w r. sub = p @ w @ r \<and> map ?f w = map ?f kw"
    then obtain p w r where "sub = p @ w @ r" "map ?f w = map ?f kw" by blast
    then have "map ?f sub = map ?f p @ map ?f kw @ map ?f r" by simp
    then show "\<exists>p r. map ?f sub = p @ map ?f kw @ r" by blast
  qed
  also have "\<dots> \<longleftrightarrow> mentions sub kw"
    unfolding mentions_def
  proof
    assume "\<exists>p w r. sub = p @ w @ r \<and> map ?f w = map ?f kw"
    then obtain p w r where s: "sub = p @ w @ r" and m: "map ?f w = map ?f kw" by blast
    from s have "set w \<subseteq> set sub" by auto
    from folded [OF this] m s show "\<exists>p w r. sub = p @ w @ r \<and> list_all2 same_letter w kw"
      by blast
  next
    assume "\<exists>p w r. sub = p @ w @ r \<and> list_all2 same_letter w kw"
    then obtain p w r where s: "sub = p @ w @ r" and m: "list_all2 same_letter w kw" by blast
    from s have "set w \<subseteq> set sub" by auto
    from folded [OF this] m s show "\<exists>p w r. sub = p @ w @ r \<and> map ?f w = map ?f kw"
      by blast
  qed
  finally show ?thesis .
qed

lemma keywords_ascii:
  "kw \<in> set high_complexity_keywords \<union> set medium_complexity_keywords \<Longrightarrow>
     list_all (\<lambda>c. c < 128) kw"
  by (auto simp: high_complexity_keywords_def medium_complexity_keywords_def ascii_def)

text \<open>
  C9.  No subject list, or an empty one, gives Unknown.  Otherwise the result is High when
  some subject contains, letter case aside, one of JEE, NEET, IIT, IB, IGCSE; else Medium
  when some subject contains one of Math, Physics, Chemistry, Biology; else Low.  The high
  keywords are looked for in all subjects first, so the order of the subjects does not
  matter: Math followed by JEE gives High.  Letter case aside is what \<open>lower\<close> makes
  of both texts; for subjects in ASCII it is that the subject mentions the keyword, letter
  by letter in either case.  So \<open>jee main\<close> is High, \<open>PHYSICS\<close> and
  \<open>mathematics\<close> are Medium, and \<open>Art\<close> is Low.
\<close>

theorem subject_complexity_classification:
  "assess_subject_complexity None = Complexity_Unknown \<and>
   assess_subject_complexity (Some []) = Complexity_Unknown \<and>
   set high_complexity_keywords =
     {ascii ''JEE'', ascii ''NEET'', ascii ''IIT'', ascii ''IB'', ascii ''IGCSE''} \<and>
   set medium_complexity_keywords =
     {ascii ''Math'', ascii ''Physics'', ascii ''Chemistry'', ascii ''Biology''} \<and>
   (subs \<noteq> [] \<longrightarrow>
      assess_subject_complexity (Some subs) =
        (if \<exists>sub\<in>set subs. \<exists>kw\<in>set high_complexity_keywords.
              \<exists>p r. lower sub = p @ lower kw @ r
         then Complexity_High
         else if \<exists>sub\<in>set subs. \<exists>kw\<in>set medium_complexity_keywords.
              \<exists>p r. lower sub = p @ lower kw @ r
         then Complexity_Medium
         else Complexity_Low)) \<and>
   (subs \<noteq> [] \<and> list_all (list_all (\<lambda>c. c < 128)) subs \<longrightarrow>
      assess_subject_complexity (Some subs) =
        (if \<exists>sub\<in>set subs. \<exists>kw\<in>set high_complexity_keywords. mentions sub kw
         then Complexity_High
         else if \<exists>sub\<in>set subs. \<exists>kw\<in>set medium_complexity_keywords. mentions sub kw
         then Complexity_Medium
         else Complexity_Low)) \<and>
   (set subs = set subs' \<longrightarrow>
      assess_subject_complexity (Some subs) = assess_subject_complexity (Some subs')) \<and>
   assess_subject_complexity (Some [ascii ''Math'', ascii ''JEE'']) = Complexity_High \<and>
   assess_subject_complexity (Some [ascii ''jee main'', ascii ''English'']) = Complexity_High \<and>
   assess_subject_complexity (Some [ascii ''math'', ascii ''Neet'']) = Complexity_High \<and>
   assess_subject_complexity (Some [ascii ''PHYSICS'']) = Complexity_Medium \<and>
   assess_subject_complexity (Some [ascii ''mathematics'']) = Complexity_Medium \<and>
   assess_subject_complexity (Some [ascii ''Art'']) = Complexity_Low"
proof -
  have none: "assess_subject_complexity None = Complexity_Unknown"
    and empty: "assess_subject_complexity (Some []) = Complexity_Unknown"
    by (simp_all add: assess_subject_complexity_def)
  have high: "set high_complexity_keywords =
     {ascii ''JEE'', ascii ''NEET'', ascii ''IIT'', ascii ''IB'', ascii ''IGCSE''}"
    by (simp add: high_complexity_keywords_def)
  have medium: "set medium_complexity_keywords =
     {ascii ''Math'', ascii ''Physics'', ascii ''Chemistry'', ascii ''Biology''}"
    by (simp add: medium_complexity_keywords_def)
  have scan: "assess_subject_complexity (Some xs) =
        (if xs = [] then Complexity_Unknown
         else if \<exists>sub\<in>set xs. \<exists>kw\<in>set high_complexity_keywords.
              \<exists>p r. lower sub = p @ lower kw @ r
         then Complexity_High
         else if \<exists>sub\<in>set xs. \<exists>kw\<in>set medium_complexity_keywords.
              \<exists>p r. lower sub = p @ lower kw @ r
         then Complexity_Medium
         else Complexity_Low)" for xs
    by (simp add: assess_subject_complexity_def subject_hit_iff contains_iff)
  have letters: "assess_subject_complexity (Some subs) =
        (if \<exists>sub\<in>set subs. \<exists>kw\<in>set high_complexity_keywords. mentions sub kw
         then Complexity_High
         else if \<exists>sub\<in>set subs. \<exists>kw\<in>set medium_complexity_keywords. mentions sub kw
         then Complexity_Medium
         else Complexity_Low)"
    if "subs \<noteq> []" and "list_all (list_all (\<lambda>c. c < 128)) subs"
  proof -
    have m: "contains (lower sub) (lower kw) \<longleftrightarrow> mentions sub kw"
      if "sub \<in> set subs" "kw \<in> set high_complexity_keywords \<union> set medium_complexity_keywords"
      for sub kw
    proof (rule contains_lower_ascii)
      from that(1) \<open>list_all (list_all (\<lambda>c. c < 128)) subs\<close>
      show "list_all (\<lambda>c. c < 128) sub" by (simp add: list_all_iff)
      from that(2) show "list_all (\<lambda>c. c < 128) kw" by (rule keywords_ascii)
    qed
    have "subject_hit high_complexity_keywords subs \<longleftrightarrow>
        (\<exists>sub\<in>set subs. \<exists>kw\<in>set high_complexity_keywords. mentions sub kw)"
      unfolding subject_hit_iff using m by blast
    moreover have "subject_hit medium_complexity_keywords subs \<longleftrightarrow>
        (\<exists>sub\<in>set subs. \<exists>kw\<in>set medium_complexity_keywords. mentions sub kw)"
      unfolding subject_hit_iff using m by blast
    ultimately show ?thesis
      using that(1) by (simp add: assess_subject_complexity_def)
  qed
  have order: "assess_subject_complexity (Some subs) = assess_subject_complexity (Some subs')"
    if "set subs = set subs'"
  proof -
    from that have "subs = [] \<longleftrightarrow> subs' = []" by (metis set_empty)
    with that show ?thesis by (simp add: scan)
  qed
  have examples:
    "assess_subject_complexity (Some [ascii ''Math'', ascii ''JEE'']) = Complexity_High"
    "assess_subject_complexity (Some [ascii ''jee main'', ascii ''English'']) = Complexity_High"
    "assess_subject_complexity (Some [ascii ''math'', ascii ''Neet'']) = Complexity_High"
    "assess_subject_complexity (Some [ascii ''PHYSICS'']) = Complexity_Medium"
    "assess_subject_complexity (Some [ascii ''mathematics'']) = Complexity_Medium"
    "assess_subject_complexity (Some [ascii ''Art'']) = Complexity_Low"
    by (simp_all add: assess_subject_complexity_def high_complexity_keywords_def
        medium_complexity_keywords_def text_eval)
  from none empty high medium scan [of subs] letters order examples show ?thesis by simp
qed

theorem subject_complexity_classification_witness:
  "[ascii ''Physics''] \<noteq> [] \<and>
   assess_subject_complexity (Some [ascii ''Physics'']) = Complexity_Medium \<and>
   list_all (list_all (\<lambda>c. c < 128)) [ascii ''jee main''] \<and>
   mentions (ascii ''jee main'') (ascii ''JEE'') \<and>
   assess_subject_complexity (Some [ascii ''jee main'']) = Complexity_High \<and>
   set [ascii ''Art'', ascii ''NEET prep''] = set [ascii ''NEET prep'', ascii ''Art''] \<and>
   assess_subject_complexity (Some [ascii ''Art'', ascii ''NEET prep'']) =
     assess_subject_complexity (Some [ascii ''NEET prep'', ascii ''Art''])"
proof -
  have order: "set [ascii ''Art'', ascii ''NEET prep''] = set [ascii ''NEET prep'', ascii ''Art'']"
    by auto
  have medium: "assess_subject_complexity (Some [ascii ''Physics'']) = Complexity_Medium"
    using subject_complexity_classification [of "[ascii ''Physics'']" "[]"]
    by (simp add: high_complexity_keywords_def medium_complexity_keywords_def contains_iff [symmetric]
        text_eval)
  have plain: "list_all (list_all (\<lambda>c. c < 128)) [ascii ''jee main'']"
    by (simp add: ascii_def)
  have "ascii ''jee main'' = [] @ ascii ''jee'' @ ascii '' main''"
    by (simp add: ascii_def)
  moreover have "list_all2 same_letter (ascii ''jee'') (ascii ''JEE'')"
    by (simp add: ascii_def same_letter_def)
  ultimately have ment: "mentions (ascii ''jee main'') (ascii ''JEE'')"
    unfolding mentions_def by blast
  have "[ascii ''jee main''] \<noteq> [] \<and> list_all (list_all (\<lambda>c. c < 128)) [ascii ''jee main''] \<longrightarrow>
      assess_subject_complexity (Some [ascii ''jee main'']) =
        (if \<exists>sub\<in>set [ascii ''jee main'']. \<exists>kw\<in>set high_complexity_keywords. mentions sub kw
         then Complexity_High
         else if \<exists>sub\<in>set [ascii ''jee main''].
                   \<exists>kw\<in>set medium_complexity_keywords. mentions sub kw
         then Complexity_Medium
         else Complexity_Low)"
    using subject_complexity_classification [of "[ascii ''jee main'']" "[]"]
    by (elim conjE) assumption
  with plain have "assess_subject_complexity (Some [ascii ''jee main'']) =
        (if \<exists>sub\<in>set [ascii ''jee main'']. \<exists>kw\<in>set high_complexity_keywords. mentions sub kw
         then Complexity_High
         else if \<exists>sub\<in>set [ascii ''jee main''].
                   \<exists>kw\<in>set medium_complexity_keywords. mentions sub kw
         then Complexity_Medium
         else Complexity_Low)"
    by simp
  moreover have "\<exists>sub\<in>set [ascii ''jee main'']. \<exists>kw\<in>set high_complexity_keywords. mentions sub kw"
    using ment by (simp add: high_complexity_keywords_def)
  ultimately have high: "assess_subject_complexity (Some [ascii ''jee main'']) = Complexity_High"
    by (simp only: if_True)
  have "set [ascii ''Art'', ascii ''NEET prep''] = set [ascii ''NEET prep'', ascii ''Art''] \<longrightarrow>
      assess_subject_complexity (Some [ascii ''Art'', ascii ''NEET prep'']) =
        assess_subject_complexity (Some [ascii ''NEET prep'', ascii ''Art''])"
    using subject_complexity_classification
      [of "[ascii ''Art'', ascii ''NEET prep'']" "[ascii ''NEET prep'', ascii ''Art'']"]
    by (elim conjE) assumption
  with order have "assess_subject_complexity (Some [ascii ''Art'', ascii ''NEET prep'']) =
        assess_subject_complexity (Some [ascii ''NEET prep'', ascii ''Art''])"
    by (rule mp [rotated])
  with order medium plain ment high show ?thesis by simp
qed

subsection \<open>Budget tokens\<close>










subsection \<open>The search and the wording of the rule\<close>


















end
